theory Spec2Isabelle
  imports Main
begin

section \<open>bnrun: script resolution and plan construction\<close>

text \<open>
  The development embeds the planner of \<^verbatim>\<open>index.ts\<close> in the version that carries the
  skip patterns and the run-once option for both the pre and the post phase (the listing
  in \<^verbatim>\<open>docs/index.md\<close>, lines 109--483; the listing \<^verbatim>\<open>src/index.ts\<close> is an earlier
  revision without the skip patterns, without \<^verbatim>\<open>shouldExecutePost\<close> and without the entry
  into \<^verbatim>\<open>scriptsRan\<close>). Strings are lists of characters, the
  module-level array \<^verbatim>\<open>scriptsRan\<close> is passed and returned explicitly, a thrown
  \<^verbatim>\<open>Error\<close> is a value, and the unbounded recursion between \<^verbatim>\<open>executeScript\<close> and
  \<^verbatim>\<open>runCommand\<close> is bounded by a fuel counter. The glob matcher \<^verbatim>\<open>minimatch\<close> is an
  external package and is taken as a parameter.
\<close>

subsection \<open>The string operations of the host language\<close>

text \<open>\<^verbatim>\<open>s.startsWith(p)\<close>.\<close>

definition startsWith :: "string \<Rightarrow> string \<Rightarrow> bool" where
  "startsWith s p = (take (length p) s = p)"

text \<open>\<^verbatim>\<open>s.substring(n)\<close> for a start index within \<open>0..\<close>; past the end it is empty.\<close>

definition substring :: "string \<Rightarrow> nat \<Rightarrow> string" where
  "substring s n = drop n s"

text \<open>
  \<^verbatim>\<open>s.split(c)\<close> for a one-character separator: the pieces between the separators,
  at least one piece.
\<close>

fun js_split :: "char \<Rightarrow> string \<Rightarrow> string list" where
  "js_split c [] = [[]]"
| "js_split c (x # xs) =
     (if x = c then [] # js_split c xs
      else (case js_split c xs of
              [] \<Rightarrow> [[x]]
            | piece # pieces \<Rightarrow> (x # piece) # pieces))"

text \<open>\<^verbatim>\<open>xs[i]\<close>: reading past the end gives \<^verbatim>\<open>undefined\<close>, here \<open>None\<close>.\<close>

fun js_index :: "'a list \<Rightarrow> nat \<Rightarrow> 'a option" where
  "js_index [] i = None"
| "js_index (x # xs) 0 = Some x"
| "js_index (x # xs) (Suc i) = js_index xs i"

text \<open>
  The search behind \<^verbatim>\<open>indexOf\<close>: the text in front of and behind the first occurrence of
  \<open>pat\<close> in the string, or \<open>None\<close> when there is none.
\<close>

fun splitAtFirst :: "string \<Rightarrow> string \<Rightarrow> (string \<times> string) option" where
  "splitAtFirst pat [] = (if pat = [] then Some ([], []) else None)"
| "splitAtFirst pat (c # cs) =
     (if take (length pat) (c # cs) = pat then Some ([], drop (length pat) (c # cs))
      else (case splitAtFirst pat cs of
              None \<Rightarrow> None
            | Some (front, behind) \<Rightarrow> Some (c # front, behind)))"

text \<open>
  The replacement text of \<^verbatim>\<open>replace\<close> and \<^verbatim>\<open>replaceAll\<close> is not literal: with a string
  pattern the language expands \<^verbatim>\<open>$$\<close> to a dollar sign, \<^verbatim>\<open>$&\<close> to the matched text,
  \<^verbatim>\<open>$`\<close> to the text in front of the match and \<^verbatim>\<open>$'\<close> to the text behind it. A string
  pattern has no capture groups, so \<^verbatim>\<open>$1\<close>, \<^verbatim>\<open>$<name>\<close> and every other use of the
  dollar sign stay as they are.
\<close>

fun getSubstitution :: "string \<Rightarrow> string \<Rightarrow> string \<Rightarrow> string \<Rightarrow> string" where
  "getSubstitution matched front behind [] = []"
| "getSubstitution matched front behind [c] = [c]"
| "getSubstitution matched front behind (c # d # r) =
     (if c = CHR ''$'' \<and> d = CHR ''$'' then CHR ''$'' # getSubstitution matched front behind r
      else if c = CHR ''$'' \<and> d = CHR ''&'' then matched @ getSubstitution matched front behind r
      else if c = CHR ''$'' \<and> d = CHR ''`'' then front @ getSubstitution matched front behind r
      else if c = CHR ''$'' \<and> d = CHR 0x27 then behind @ getSubstitution matched front behind r
      else c # getSubstitution matched front behind (d # r))"

text \<open>\<^verbatim>\<open>s.replace(pat, repl)\<close> with a string pattern: the first occurrence only.\<close>

definition js_replace :: "string \<Rightarrow> string \<Rightarrow> string \<Rightarrow> string" where
  "js_replace s pat repl =
     (case splitAtFirst pat s of
        None \<Rightarrow> s
      | Some (front, behind) \<Rightarrow> front @ getSubstitution pat front behind repl @ behind)"

text \<open>
  \<^verbatim>\<open>s.replaceAll(pat, repl)\<close> with a string pattern: every occurrence, found from left
  to right without overlap; \<open>seen\<close> is the part of the original string already passed,
  which \<^verbatim>\<open>$`\<close> refers to. After an empty match the search moves on by one character.
\<close>

lemma splitAtFirst_parts:
  "splitAtFirst pat s = Some (front, behind) \<Longrightarrow> s = front @ pat @ behind"
proof (induction s arbitrary: front)
  case Nil
  then show ?case by (simp split: if_splits)
next
  case (Cons c cs)
  show ?case
  proof (cases "take (length pat) (c # cs) = pat")
    case True
    with Cons.prems have "front = []" "behind = drop (length pat) (c # cs)" by simp_all
    with True show ?thesis by (metis append_Nil append_take_drop_id)
  next
    case False
    with Cons.prems obtain b where b: "splitAtFirst pat cs = Some (b, behind)" "front = c # b"
      by (auto split: option.splits)
    from Cons.IH [OF b(1)] b(2) show ?thesis by simp
  qed
qed

function replaceAllFrom :: "string \<Rightarrow> string \<Rightarrow> string \<Rightarrow> string \<Rightarrow> string" where
  "replaceAllFrom seen rest pat repl =
     (case splitAtFirst pat rest of
        None \<Rightarrow> rest
      | Some (front, behind) \<Rightarrow>
          front @ getSubstitution pat (seen @ front) behind repl @
          (if pat = [] then
             (case behind of
                [] \<Rightarrow> []
              | c # cs \<Rightarrow> c # replaceAllFrom (seen @ front @ [c]) cs pat repl)
           else replaceAllFrom (seen @ front @ pat) behind pat repl))"
  by pat_completeness auto
termination
proof (relation "measure (\<lambda>(seen, rest, pat, repl). length rest)", goal_cases)
  case 1
  show ?case by simp
next
  case (2 seen rest pat repl x2 front behind c cs)
  with splitAtFirst_parts [of pat rest front behind] show ?case by auto
next
  case (3 seen rest pat repl x2 front behind)
  with splitAtFirst_parts [of pat rest front behind] show ?case by auto
qed

declare replaceAllFrom.simps [simp del]

definition js_replaceAll :: "string \<Rightarrow> string \<Rightarrow> string \<Rightarrow> string" where
  "js_replaceAll s pat repl = replaceAllFrom [] s pat repl"

subsection \<open>The data model\<close>

text \<open>
  The types of the source. A field marked optional (\<^verbatim>\<open>pre?\<close>, \<^verbatim>\<open>post?\<close>,
  \<^verbatim>\<open>config?\<close>) is an \<open>option\<close>. The values of the phase options come from the
  definition file as strings and are compared with \<^verbatim>\<open>'run-once'\<close>. A field name that
  two types share carries a prefix in the smaller type: \<open>opt_\<close> in \<^verbatim>\<open>Options\<close>, \<open>step_\<close> in
  \<^verbatim>\<open>PlanStep\<close>, and \<open>sub_\<close> for the \<^verbatim>\<open>param\<close> and \<^verbatim>\<open>value\<close> of a substitution.
\<close>

record Options =
  opt_pre :: "string option"
  opt_command :: "string option"
  opt_post :: "string option"
  opt_options :: "string list option"

record Script =
  name :: string
  config :: "Options option"
  pre :: "string list option"
  command :: "string list"
  post :: "string list option"

record Substitution =
  sub_param :: string
  sub_value :: string

record ProcessedScript =
  script :: Script
  substitutions :: "Substitution list"

datatype Phase = PRE | COMMAND | POST

record PlanStep =
  step_script :: string
  step_phase :: Phase
  step_command :: string
  step_skip :: bool

text \<open>
  What a call can end with besides its value: \<^verbatim>\<open>throw new Error(message)\<close>, or the
  \<^verbatim>\<open>SyntaxError\<close> of \<^verbatim>\<open>JSON.parse\<close>.
\<close>

datatype error = Error string | SyntaxError

subsection \<open>Loading the definitions\<close>

text \<open>
  \<^verbatim>\<open>loadScriptFile\<close> (lines 234--245) reads a file, hands its text to \<^verbatim>\<open>JSON.parse\<close> and
  tests the value with \<^verbatim>\<open>isScriptsFile\<close>, which is \<^verbatim>\<open>typeof obj === 'object'\<close>. The values of
  JSON are a datatype (the numbers are left abstract), \<^verbatim>\<open>typeof\<close> is the operator of the
  language (\<^verbatim>\<open>null\<close> and arrays are objects), and the argument of the model is what
  \<^verbatim>\<open>JSON.parse\<close> has made of the file: \<open>None\<close> when it throws its \<^verbatim>\<open>SyntaxError\<close>.
\<close>

datatype 'n json =
    JNull | JBoolean bool | JNumber 'n | JString string
  | JArray "'n json list" | JObject "(string \<times> 'n json) list"

definition typeof :: "'n json \<Rightarrow> string" where
  "typeof obj =
     (case obj of
        JNull \<Rightarrow> ''object''
      | JBoolean b \<Rightarrow> ''boolean''
      | JNumber n \<Rightarrow> ''number''
      | JString s \<Rightarrow> ''string''
      | JArray xs \<Rightarrow> ''object''
      | JObject entries \<Rightarrow> ''object'')"

definition isScriptsFile :: "'n json \<Rightarrow> bool" where
  "isScriptsFile obj = (typeof obj = ''object'')"

definition loadScriptFile :: "'n json option \<Rightarrow> error + 'n json" where
  "loadScriptFile parsed =
     (case parsed of
        None \<Rightarrow> Inl SyntaxError
      | Some scripts \<Rightarrow>
          if \<not> isScriptsFile scripts then Inl (Error ''Invalid script file'') else Inr scripts)"

subsection \<open>The resolver\<close>

text \<open>
  The regular expression \<^verbatim>\<open>/\$\{(\w+)\}/g\<close>. \<open>wordChar\<close> is \<^verbatim>\<open>\w\<close>. \<open>matchPlaceholder s\<close>
  matches the expression at the start of \<open>s\<close>: a dollar sign, an opening brace, the
  longest non-empty run of word characters and a closing brace; it gives the matched
  text and the rest of the string.
\<close>

definition wordChar :: "char \<Rightarrow> bool" where
  "wordChar c =
     (c \<in> set (''abcdefghijklmnopqrstuvwxyz'' @ ''ABCDEFGHIJKLMNOPQRSTUVWXYZ'' @
                ''0123456789'' @ ''_''))"

fun matchPlaceholder :: "string \<Rightarrow> (string \<times> string) option" where
  "matchPlaceholder (c # d # r) =
     (if c = CHR ''$'' \<and> d = CHR ''{'' \<and> takeWhile wordChar r \<noteq> [] \<and>
         take 1 (dropWhile wordChar r) = ''}''
      then Some (c # d # takeWhile wordChar r @ ''}'', drop 1 (dropWhile wordChar r))
      else None)"
| "matchPlaceholder s = None"

lemma matchPlaceholder_parts:
  "matchPlaceholder s = Some (token, rest) \<Longrightarrow> s = token @ rest"
proof (cases s rule: matchPlaceholder.cases)
  case (1 c d r)
  assume m: "matchPlaceholder s = Some (token, rest)"
  from m 1 have t: "token = c # d # takeWhile wordChar r @ ''}''"
    and r: "rest = drop 1 (dropWhile wordChar r)"
    and b: "take 1 (dropWhile wordChar r) = ''}''"
    by (simp_all split: if_splits)
  have "r = takeWhile wordChar r @ take 1 (dropWhile wordChar r) @ drop 1 (dropWhile wordChar r)"
    by simp
  with t r b 1 show ?thesis by (metis append_Cons append_assoc)
qed simp_all

lemma matchPlaceholder_token:
  "matchPlaceholder s = Some (token, rest) \<Longrightarrow>
   \<exists>w. token = ''${'' @ w @ ''}'' \<and> w \<noteq> [] \<and> list_all wordChar w"
proof (cases s rule: matchPlaceholder.cases)
  case (1 c d r)
  assume "matchPlaceholder s = Some (token, rest)"
  with 1 have "token = ''${'' @ takeWhile wordChar r @ ''}''" "takeWhile wordChar r \<noteq> []"
    by (simp_all split: if_splits)
  moreover have "list_all wordChar (takeWhile wordChar r)"
    by (simp add: list_all_iff) (meson set_takeWhileD)
  ultimately show ?thesis by blast
qed simp_all

text \<open>
  The loop \<^verbatim>\<open>while ((match = regex.exec(script.name)) !== null)\<close>: the matches of the
  expression in the name from left to right, each search starting where the previous
  match ended.
\<close>

function placeholders :: "string \<Rightarrow> string list" where
  "placeholders [] = []"
| "placeholders (c # cs) =
     (case matchPlaceholder (c # cs) of
        Some (token, rest) \<Rightarrow> token # placeholders rest
      | None \<Rightarrow> placeholders cs)"
  by pat_completeness auto
termination
proof (relation "measure length", goal_cases)
  case 1
  show ?case by simp
next
  case (2 c cs)
  show ?case by simp
next
  case (3 c cs x2 token rest)
  then have m: "matchPlaceholder (c # cs) = Some (token, rest)" by simp
  from m have "c # cs = token @ rest" by (rule matchPlaceholder_parts)
  moreover from m have "token \<noteq> []" by (auto dest: matchPlaceholder_token)
  ultimately show ?case by (cases token) auto
qed

text \<open>
  The body of the \<^verbatim>\<open>for\<close> loop of \<^verbatim>\<open>findMatchingScript\<close> for one script (lines 199--217):
  the working copy \<^verbatim>\<open>scriptName\<close> and the \<^verbatim>\<open>substitutions\<close> collected, once the
  \<^verbatim>\<open>while\<close> loop has passed every placeholder of the name. \<^verbatim>\<open>param.split(':')[1]\<close>
  is \<open>None\<close> when the parameter has no colon; \<^verbatim>\<open>if (value)\<close> holds for a string that
  is there and not empty.
\<close>

definition substituteStep ::
  "string option \<Rightarrow> string \<Rightarrow> string \<times> Substitution list \<Rightarrow> string \<times> Substitution list"
where
  "substituteStep v placeholder acc =
     (case v of
        None \<Rightarrow> acc
      | Some val \<Rightarrow>
          if val \<noteq> []
          then (js_replace (fst acc) placeholder val,
                snd acc @ [\<lparr>sub_param = placeholder, sub_value = val\<rparr>])
          else acc)"

definition substituteName :: "Script \<Rightarrow> string \<Rightarrow> string \<times> Substitution list" where
  "substituteName s param =
     fold (substituteStep (js_index (js_split CHR '':'' param) 1)) (placeholders (name s))
       (name s, [])"

text \<open>The \<^verbatim>\<open>for\<close> loop over the scripts, and the \<^verbatim>\<open>throw\<close> that follows it.\<close>

fun matchByPattern :: "Script list \<Rightarrow> string \<Rightarrow> error + ProcessedScript" where
  "matchByPattern [] param = Inl (Error (''No script found for '' @ param))"
| "matchByPattern (s # rest) param =
     (if fst (substituteName s param) = param
      then Inr \<lparr>script = s, substitutions = snd (substituteName s param)\<rparr>
      else matchByPattern rest param)"

definition findMatchingScript :: "Script list \<Rightarrow> string \<Rightarrow> error + ProcessedScript" where
  "findMatchingScript scripts param =
     (case find (\<lambda>s. name s = param) scripts of
        Some completeMatch \<Rightarrow> Inr \<lparr>script = completeMatch, substitutions = []\<rparr>
      | None \<Rightarrow> matchByPattern scripts param)"

subsection \<open>The skip filter\<close>

text \<open>
  \<^verbatim>\<open>matchGlobPatterns\<close> collects a pattern for every pair of an item and a pattern that
  \<^verbatim>\<open>minimatch\<close> accepts, and answers whether it has collected any. The matcher is the
  parameter \<open>minimatch\<close>.
\<close>

definition matchGlobPatterns ::
  "(string \<Rightarrow> string \<Rightarrow> bool) \<Rightarrow> string list \<Rightarrow> string list \<Rightarrow> bool"
where
  "matchGlobPatterns minimatch items patterns =
     (let matchedItems =
            concat (map (\<lambda>item. filter (\<lambda>pattern. minimatch item pattern) patterns) items)
      in length matchedItems > 0)"

subsection \<open>The plan builder\<close>

text \<open>
  \<^verbatim>\<open>shouldExecutePre\<close> and \<^verbatim>\<open>shouldExecutePost\<close> read the module-level array
  \<^verbatim>\<open>scriptsRan\<close>, here their second argument.
\<close>

definition shouldExecutePre :: "Script \<Rightarrow> string list \<Rightarrow> bool" where
  "shouldExecutePre s scriptsRan =
     (case pre s of
        None \<Rightarrow> False
      | Some cmds \<Rightarrow>
          if length cmds > 0 then
            (case config s of
               None \<Rightarrow> True
             | Some cfg \<Rightarrow>
                 if opt_pre cfg = Some ''run-once'' then name s \<notin> set scriptsRan else True)
          else False)"

definition shouldExecutePost :: "Script \<Rightarrow> string list \<Rightarrow> bool" where
  "shouldExecutePost s scriptsRan =
     (case post s of
        None \<Rightarrow> False
      | Some cmds \<Rightarrow>
          if length cmds > 0 then
            (case config s of
               None \<Rightarrow> True
             | Some cfg \<Rightarrow>
                 if opt_post cfg = Some ''run-once'' then name s \<notin> set scriptsRan else True)
          else False)"

text \<open>
  A call of the plan builder ends in one of three ways: it has not returned within the
  fuel given (\<open>OutOfFuel\<close>, which stands for the unbounded recursion of a script that
  invokes itself), it throws, or it returns its value together with \<^verbatim>\<open>scriptsRan\<close> as
  the call leaves it.
\<close>

datatype 'a result = OutOfFuel | Throw error | Return 'a

definition bnrunPrefix :: string where
  "bnrunPrefix = ''bnrun ''"

text \<open>The list a phase reads: \<^verbatim>\<open>script.pre\<close> and \<^verbatim>\<open>script.post\<close> once they are known to be there.\<close>

definition phaseCommands :: "string list option \<Rightarrow> string list" where
  "phaseCommands cmds = (case cmds of None \<Rightarrow> [] | Some cs \<Rightarrow> cs)"

text \<open>
  The two \<^verbatim>\<open>forEach\<close> loops over the substitutions: the display name of
  \<^verbatim>\<open>executeScript\<close>, built with \<^verbatim>\<open>replace\<close>, and the command of \<^verbatim>\<open>runCommand\<close>, built
  with \<^verbatim>\<open>replaceAll\<close>.
\<close>

definition substitutedName :: "ProcessedScript \<Rightarrow> string" where
  "substitutedName subbedScript =
     fold (\<lambda>sub n. js_replace n (sub_param sub) (sub_value sub))
       (substitutions subbedScript) (name (script subbedScript))"

definition substitutedCommand :: "Substitution list \<Rightarrow> string \<Rightarrow> string" where
  "substitutedCommand subs commandToRun =
     fold (\<lambda>sub c. js_replaceAll c (sub_param sub) (sub_value sub)) subs commandToRun"

text \<open>\<^verbatim>\<open>argv.skip || []\<close>.\<close>

definition skipPatterns :: "string list option \<Rightarrow> string list" where
  "skipPatterns skip = (case skip of None \<Rightarrow> [] | Some patterns \<Rightarrow> patterns)"

text \<open>
  \<^verbatim>\<open>executeScript\<close> (lines 278--324) and \<^verbatim>\<open>runCommand\<close> (lines 326--356) call each
  other. \<open>mapRunCommand\<close> is \<^verbatim>\<open>cmds.map(c => runCommand(name, c, substitutions, phase, level + 1))\<close>:
  the commands are run from left to right, each on the \<^verbatim>\<open>scriptsRan\<close> the previous one
  left, and the first one that throws ends the whole call. The parameter \<^verbatim>\<open>level\<close> only
  indents the log and is left out; the log itself is not modelled. The fuel is spent by
  \<open>executeScript\<close>, one unit for each level of nesting.
\<close>

function (sequential) executeScript ::
    "(string \<Rightarrow> string \<Rightarrow> bool) \<Rightarrow> Script list \<Rightarrow> string list option \<Rightarrow> nat \<Rightarrow>
     ProcessedScript \<Rightarrow> Phase \<Rightarrow> PlanStep list \<Rightarrow> string list \<Rightarrow>
     (PlanStep list \<times> string list) result"
  and mapRunCommand ::
    "(string \<Rightarrow> string \<Rightarrow> bool) \<Rightarrow> Script list \<Rightarrow> string list option \<Rightarrow> nat \<Rightarrow>
     string \<Rightarrow> string list \<Rightarrow> Substitution list \<Rightarrow> Phase \<Rightarrow> string list \<Rightarrow>
     (PlanStep list list \<times> string list) result"
  and runCommand ::
    "(string \<Rightarrow> string \<Rightarrow> bool) \<Rightarrow> Script list \<Rightarrow> string list option \<Rightarrow> nat \<Rightarrow>
     string \<Rightarrow> string \<Rightarrow> Substitution list \<Rightarrow> Phase \<Rightarrow> string list \<Rightarrow>
     (PlanStep list \<times> string list) result"
where
  "executeScript minimatch scripts skip 0 subbedScript phase steps scriptsRan = OutOfFuel"
| "executeScript minimatch scripts skip (Suc fuel) subbedScript phase steps scriptsRan =
     (let builtSteps = steps;
          nm = substitutedName subbedScript;
          s = script subbedScript;
          subs = substitutions subbedScript
      in
      case (if shouldExecutePre s scriptsRan
            then mapRunCommand minimatch scripts skip fuel nm (phaseCommands (pre s)) subs PRE
                   scriptsRan
            else Return ([], scriptsRan)) of
        OutOfFuel \<Rightarrow> OutOfFuel
      | Throw e \<Rightarrow> Throw e
      | Return (preSteps, ledger1) \<Rightarrow>
      case (if length (command s) > 0
            then mapRunCommand minimatch scripts skip fuel nm (command s) subs COMMAND ledger1
            else Return ([], ledger1)) of
        OutOfFuel \<Rightarrow> OutOfFuel
      | Throw e \<Rightarrow> Throw e
      | Return (commandSteps, ledger2) \<Rightarrow>
      case (if shouldExecutePost s ledger2
            then mapRunCommand minimatch scripts skip fuel nm (phaseCommands (post s)) subs POST
                   ledger2
            else Return ([], ledger2)) of
        OutOfFuel \<Rightarrow> OutOfFuel
      | Throw e \<Rightarrow> Throw e
      | Return (postSteps, ledger3) \<Rightarrow>
          Return (builtSteps @ concat preSteps @ concat commandSteps @ concat postSteps,
                  ledger3 @ [name (script subbedScript)]))"
| "mapRunCommand minimatch scripts skip fuel nm [] subs phase scriptsRan =
     Return ([], scriptsRan)"
| "mapRunCommand minimatch scripts skip fuel nm (cmd # cmds) subs phase scriptsRan =
     (case runCommand minimatch scripts skip fuel nm cmd subs phase scriptsRan of
        OutOfFuel \<Rightarrow> OutOfFuel
      | Throw e \<Rightarrow> Throw e
      | Return (first, ledger1) \<Rightarrow>
      case mapRunCommand minimatch scripts skip fuel nm cmds subs phase ledger1 of
        OutOfFuel \<Rightarrow> OutOfFuel
      | Throw e \<Rightarrow> Throw e
      | Return (others, ledger2) \<Rightarrow> Return (first # others, ledger2))"
| "runCommand minimatch scripts skip fuel scriptNm commandToRun subs phase scriptsRan =
     (let cmd = substitutedCommand subs commandToRun
      in
      if startsWith commandToRun bnrunPrefix then
        (case findMatchingScript scripts (substring cmd (length bnrunPrefix)) of
           Inl e \<Rightarrow> Throw e
         | Inr found \<Rightarrow> executeScript minimatch scripts skip fuel found phase [] scriptsRan)
      else
        Return ([\<lparr>step_script = scriptNm, step_phase = phase, step_command = cmd,
                  step_skip = matchGlobPatterns minimatch [scriptNm, cmd] (skipPatterns skip)\<rparr>],
                scriptsRan))"
  by pat_completeness auto
termination
  by (relation "measures [
        (\<lambda>x. case x of Inl (mm, sc, sk, fuel, _) \<Rightarrow> fuel
                 | Inr (Inl (mm, sc, sk, fuel, _)) \<Rightarrow> fuel
                 | Inr (Inr (mm, sc, sk, fuel, _)) \<Rightarrow> fuel),
        (\<lambda>x. case x of Inl _ \<Rightarrow> 0
                 | Inr (Inl (mm, sc, sk, fuel, nm, cmds, _)) \<Rightarrow> Suc (Suc (length cmds))
                 | Inr (Inr _) \<Rightarrow> Suc 0)]") auto

text \<open>
  The top level of the program (lines 396--398): the requested name is resolved and
  the plan is built from an empty \<^verbatim>\<open>scriptsRan\<close>, with the default arguments
  \<^verbatim>\<open>Phase.COMMAND\<close> and \<^verbatim>\<open>[]\<close>.
\<close>

definition buildSteps ::
  "(string \<Rightarrow> string \<Rightarrow> bool) \<Rightarrow> Script list \<Rightarrow> string list option \<Rightarrow> nat \<Rightarrow> string \<Rightarrow>
   PlanStep list result"
where
  "buildSteps minimatch scripts skip fuel target =
     (case findMatchingScript scripts target of
        Inl e \<Rightarrow> Throw e
      | Inr found \<Rightarrow>
          (case executeScript minimatch scripts skip fuel found COMMAND [] [] of
             OutOfFuel \<Rightarrow> OutOfFuel
           | Throw e \<Rightarrow> Throw e
           | Return (steps, ledger) \<Rightarrow> Return steps))"

text \<open>
  One phase of \<^verbatim>\<open>executeScript\<close>: the commands of the phase are run when the phase is
  eligible, and nothing happens otherwise.
\<close>

definition runPhase ::
  "(string \<Rightarrow> string \<Rightarrow> bool) \<Rightarrow> Script list \<Rightarrow> string list option \<Rightarrow> nat \<Rightarrow>
   bool \<Rightarrow> string \<Rightarrow> string list \<Rightarrow> Substitution list \<Rightarrow> Phase \<Rightarrow> string list \<Rightarrow>
   (PlanStep list list \<times> string list) result"
where
  "runPhase minimatch scripts skip fuel eligible nm cmds subs phase scriptsRan =
     (if eligible then mapRunCommand minimatch scripts skip fuel nm cmds subs phase scriptsRan
      else Return ([], scriptsRan))"

subsection \<open>Notions of the specification\<close>

text \<open>
  The skip rule in the words of the specification: a step is skipped when some pattern
  matches its script name or its command text.
\<close>

definition shouldSkip :: "(string \<Rightarrow> string \<Rightarrow> bool) \<Rightarrow> string list \<Rightarrow> PlanStep \<Rightarrow> bool" where
  "shouldSkip minimatch patterns st =
     (\<exists>pattern\<in>set patterns.
        minimatch (step_script st) pattern \<or> minimatch (step_command st) pattern)"

text \<open>
  Whether the run-once option is set for a phase: \<^verbatim>\<open>script.config && script.config.pre === 'run-once'\<close>,
  and the same for \<^verbatim>\<open>post\<close>.
\<close>

definition runOnceSet :: "Script \<Rightarrow> (Options \<Rightarrow> string option) \<Rightarrow> bool" where
  "runOnceSet s phaseOption =
     (case config s of None \<Rightarrow> False | Some cfg \<Rightarrow> phaseOption cfg = Some ''run-once'')"

text \<open>
  The tokenizer of the specification: a name is a sequence of literal characters and
  placeholder tokens. \<open>substituteAll v nm\<close> is the name with the value in the place of
  every token, and \<open>dollarOnlyInPlaceholders nm\<close> says that every dollar sign of the name
  begins a token.
\<close>

datatype segment = Literal char | Placeholder string

function tokenize :: "string \<Rightarrow> segment list" where
  "tokenize [] = []"
| "tokenize (c # cs) =
     (case matchPlaceholder (c # cs) of
        Some (token, rest) \<Rightarrow> Placeholder token # tokenize rest
      | None \<Rightarrow> Literal c # tokenize cs)"
  by pat_completeness auto
termination
proof (relation "measure length", goal_cases)
  case 1
  show ?case by simp
next
  case (2 c cs)
  show ?case by simp
next
  case (3 c cs x2 token rest)
  then have m: "matchPlaceholder (c # cs) = Some (token, rest)" by simp
  from m have "c # cs = token @ rest" by (rule matchPlaceholder_parts)
  moreover from m have "token \<noteq> []" by (auto dest: matchPlaceholder_token)
  ultimately show ?case by (cases token) auto
qed

definition substituteAll :: "string \<Rightarrow> string \<Rightarrow> string" where
  "substituteAll v nm =
     concat (map (\<lambda>seg. case seg of Literal c \<Rightarrow> [c] | Placeholder token \<Rightarrow> v) (tokenize nm))"

definition dollarOnlyInPlaceholders :: "string \<Rightarrow> bool" where
  "dollarOnlyInPlaceholders nm = (Literal CHR ''$'' \<notin> set (tokenize nm))"

text \<open>
  The shape the specification asks of a definition set: a mapping from names to
  records, each with a non-empty list under \<^verbatim>\<open>command\<close>.
\<close>

definition hasCommandList :: "'n json \<Rightarrow> bool" where
  "hasCommandList entry =
     (case entry of
        JObject props \<Rightarrow>
          (case map_of props ''command'' of
             Some (JArray (c # cs)) \<Rightarrow> True
           | _ \<Rightarrow> False)
      | _ \<Rightarrow> False)"

definition wellFormedDefinitions :: "'n json \<Rightarrow> bool" where
  "wellFormedDefinitions obj =
     (case obj of
        JObject entries \<Rightarrow> list_all (\<lambda>entry. hasCommandList (snd entry)) entries
      | _ \<Rightarrow> False)"

subsection \<open>Example registries\<close>

text \<open>
  The templates of the examples of the specification: the script \<^verbatim>\<open>build\<close>, the
  parameterised deployment script and the script \<^verbatim>\<open>all\<close> that invokes both; beside them a
  script under the exact name \<^verbatim>\<open>deploy:prod\<close> and a template without a colon.
\<close>

definition exampleBuild :: Script where
  "exampleBuild = \<lparr>name = ''build'', config = None, pre = None, command = [''echo A''],
                    post = None\<rparr>"

definition exampleDeploy :: Script where
  "exampleDeploy = \<lparr>name = ''deploy:${env}'', config = None, pre = Some [''echo setup''],
                     command = [''echo deploy ${env}''], post = None\<rparr>"

definition exampleAll :: Script where
  "exampleAll = \<lparr>name = ''all'', config = None, pre = None,
                  command = [''bnrun build'', ''bnrun deploy:prod''], post = None\<rparr>"

definition exampleDeployProd :: Script where
  "exampleDeployProd = \<lparr>name = ''deploy:prod'', config = None, pre = None,
                     command = [''echo exact''], post = None\<rparr>"

definition examplePlain :: Script where
  "examplePlain = \<lparr>name = ''deploy${env}'', config = None, pre = None,
                     command = [''echo deploy''], post = None\<rparr>"

text \<open>
  The first example of the documentation: a build script for several projects whose
  pre phase is to run once, a script that builds two of the projects, and the two
  resolved invocations.
\<close>

definition exampleRunOnce :: Script where
  "exampleRunOnce =
     \<lparr>name = ''build:${project}:production'',
      config = Some \<lparr>opt_pre = Some ''run-once'', opt_command = None, opt_post = None,
                     opt_options = Some [''projectA'', ''projectB'']\<rparr>,
      pre = Some [''some-pre command-for-projects''],
      command = [''some-build command-for ${project}''],
      post = Some [''some-post command-for ${project}'']\<rparr>"

definition exampleBuildAll :: Script where
  "exampleBuildAll =
     \<lparr>name = ''build:all'', config = None, pre = None,
      command = [''bnrun build:projectA:production'', ''bnrun build:projectB:production''],
      post = None\<rparr>"

definition exampleProjectA :: ProcessedScript where
  "exampleProjectA =
     \<lparr>script = exampleRunOnce,
      substitutions = [\<lparr>sub_param = ''${project}'', sub_value = ''projectA''\<rparr>]\<rparr>"

definition exampleProjectB :: ProcessedScript where
  "exampleProjectB =
     \<lparr>script = exampleRunOnce,
      substitutions = [\<lparr>sub_param = ''${project}'', sub_value = ''projectB''\<rparr>]\<rparr>"

text \<open>
  A run-once script whose command invokes the script again with a longer parameter,
  and the script under an exact name that ends the chain.
\<close>

definition exampleSelf :: Script where
  "exampleSelf =
     \<lparr>name = ''t:${x}'',
      config = Some \<lparr>opt_pre = Some ''run-once'', opt_command = None, opt_post = None,
                     opt_options = None\<rparr>,
      pre = Some [''echo pre ${x}''], command = [''bnrun t:${x}x''], post = None\<rparr>"

definition exampleEnd :: Script where
  "exampleEnd = \<lparr>name = ''t:axx'', config = None, pre = None, command = [''echo end''],
                  post = None\<rparr>"

text \<open>
  A script that invokes a script nobody defines, a script whose command starts with a
  placeholder, a template name with a dollar sign that begins no token, and a step of
  the build script with its skip flag set.
\<close>

definition exampleBroken :: Script where
  "exampleBroken = \<lparr>name = ''broken'', config = None, pre = None,
                     command = [''bnrun build'', ''bnrun missing''], post = None\<rparr>"

definition exampleRunTool :: Script where
  "exampleRunTool = \<lparr>name = ''run:${tool}'', config = None, pre = None,
                      command = [''${tool} build''], post = None\<rparr>"

definition exampleOddName :: Script where
  "exampleOddName = \<lparr>name = ''b:${z}:${a${a}${a}'', config = None, pre = None,
                      command = [''echo odd''], post = None\<rparr>"

definition exampleSkipStep :: PlanStep where
  "exampleSkipStep = \<lparr>step_script = ''build'', step_phase = COMMAND, step_command = ''echo A'', step_skip = True\<rparr>"

section \<open>Properties\<close>

subsection \<open>The resolver\<close>

lemma matchByPattern_Inr:
  "matchByPattern scripts param = Inr ps \<Longrightarrow>
   script ps \<in> set scripts \<and> fst (substituteName (script ps) param) = param \<and>
   substitutions ps = snd (substituteName (script ps) param)"
  by (induction scripts) (auto split: if_splits)

lemma matchByPattern_none:
  "\<forall>s\<in>set scripts. fst (substituteName s param) \<noteq> param \<Longrightarrow>
   matchByPattern scripts param = Inl (Error (''No script found for '' @ param))"
  by (induction scripts) auto

lemma substituteName_no_placeholder:
  "placeholders (name s) = [] \<Longrightarrow> substituteName s param = (name s, [])"
  by (simp add: substituteName_def)

lemma findMatchingScript_Inr:
  assumes "findMatchingScript scripts param = Inr ps"
  shows "script ps \<in> set scripts"
    and "(name (script ps) = param \<and> substitutions ps = []) \<or>
         (fst (substituteName (script ps) param) = param \<and>
          substitutions ps = snd (substituteName (script ps) param))"
  using assms
  by (auto simp: findMatchingScript_def find_Some_iff dest: matchByPattern_Inr
           split: option.splits)

text \<open>
  C5. When some template carries the requested name verbatim, the resolver returns the
  first such template with no substitutions, wherever a parameterised template stands
  in the registry; and a template whose name has no placeholder is returned only for a
  request that equals its name, with no substitutions.
\<close>

theorem exact_match_first:
  "(s \<in> set scripts \<and> name s = param \<longrightarrow>
      (\<exists>t. find (\<lambda>s. name s = param) scripts = Some t \<and> t \<in> set scripts \<and> name t = param \<and>
           findMatchingScript scripts param = Inr \<lparr>script = t, substitutions = []\<rparr>)) \<and>
   (findMatchingScript scripts param = Inr ps \<and> placeholders (name (script ps)) = [] \<longrightarrow>
      name (script ps) = param \<and> substitutions ps = [])"
proof (intro conjI impI)
  assume a: "s \<in> set scripts \<and> name s = param"
  then obtain t where t: "find (\<lambda>s. name s = param) scripts = Some t"
    by (cases "find (\<lambda>s. name s = param) scripts") (auto simp: find_None_iff)
  then have "t \<in> set scripts" "name t = param"
    by (auto simp: find_Some_iff)
  with t show "\<exists>t. find (\<lambda>s. name s = param) scripts = Some t \<and> t \<in> set scripts \<and>
      name t = param \<and> findMatchingScript scripts param = Inr \<lparr>script = t, substitutions = []\<rparr>"
    by (simp add: findMatchingScript_def)
next
  assume b: "findMatchingScript scripts param = Inr ps \<and> placeholders (name (script ps)) = []"
  then have "substituteName (script ps) param = (name (script ps), [])"
    by (simp add: substituteName_no_placeholder)
  with findMatchingScript_Inr(2) [of scripts param ps] b
  show "name (script ps) = param" "substitutions ps = []" by auto
qed

theorem exact_match_first_witness:
  "fst (substituteName exampleDeploy ''deploy:prod'') = ''deploy:prod'' \<and>
   exampleDeployProd \<in> set [exampleDeploy, exampleDeployProd] \<and>
   findMatchingScript [exampleDeploy, exampleDeployProd] ''deploy:prod'' =
     Inr \<lparr>script = exampleDeployProd, substitutions = []\<rparr> \<and>
   placeholders (name exampleDeployProd) = [] \<and> name exampleDeployProd = ''deploy:prod''"
proof -
  have shadow: "fst (substituteName exampleDeploy ''deploy:prod'') = ''deploy:prod''"
    by code_simp
  have found: "findMatchingScript [exampleDeploy, exampleDeployProd] ''deploy:prod'' =
     Inr \<lparr>script = exampleDeployProd, substitutions = []\<rparr>"
    by code_simp
  have plain: "placeholders (name exampleDeployProd) = []"
    by code_simp
  from exact_match_first [of exampleDeployProd "[exampleDeploy, exampleDeployProd]"
      "''deploy:prod''" "\<lparr>script = exampleDeployProd, substitutions = []\<rparr>"] found plain
  have "name exampleDeployProd = ''deploy:prod''" by simp
  with shadow found plain show ?thesis by simp
qed


lemma js_split_no_separator: "c \<notin> set s \<Longrightarrow> js_split c s = [s]"
  by (induction s) auto

lemma substituteName_no_colon:
  assumes "CHR '':'' \<notin> set param"
  shows "substituteName s param = (name s, [])"
proof -
  have "js_index (js_split CHR '':'' param) 1 = None"
    using assms by (simp add: js_split_no_separator)
  moreover have "fold (substituteStep None) tokens acc = acc" for tokens acc
    by (induction tokens) (simp_all add: substituteStep_def)
  ultimately show ?thesis by (simp add: substituteName_def)
qed

lemma matchByPattern_no_colon:
  assumes "CHR '':'' \<notin> set param"
  shows "matchByPattern scripts param =
           (case find (\<lambda>s. name s = param) scripts of
              Some completeMatch \<Rightarrow> Inr \<lparr>script = completeMatch, substitutions = []\<rparr>
            | None \<Rightarrow> Inl (Error (''No script found for '' @ param)))"
  by (induction scripts) (simp_all add: substituteName_no_colon [OF assms])

text \<open>
  C10, as the claim states it, fails in one clause: a template whose name contains a
  placeholder token is matched by a request without a colon when the request is that
  name letter for letter, through the exact match.
\<close>

theorem placeholder_name_exact_counterexample:
  "CHR '':'' \<notin> set ''deploy${env}'' \<and>
   name examplePlain = ''deploy${env}'' \<and>
   placeholders (name examplePlain) = [''${env}''] \<and>
   findMatchingScript [examplePlain, exampleBuild] ''deploy${env}'' =
     Inr \<lparr>script = examplePlain, substitutions = []\<rparr>"
  by code_simp

text \<open>
  C10, amended. A requested name without a colon gives no parameter value: the loop body
  substitutes nothing and leaves every template name as it is, placeholder tokens
  included, so that the pattern loop can only find a template whose name is the request.
  The resolver answers with the first template of that name and no bindings, and fails
  when there is none; a template with a placeholder token in its name is returned for no
  request but its own name.
\<close>

theorem no_colon_exact_only:
  assumes "CHR '':'' \<notin> set param"
  shows "substituteName s param = (name s, []) \<and>
         findMatchingScript scripts param =
           (case find (\<lambda>s. name s = param) scripts of
              Some completeMatch \<Rightarrow> Inr \<lparr>script = completeMatch, substitutions = []\<rparr>
            | None \<Rightarrow> Inl (Error (''No script found for '' @ param))) \<and>
         matchByPattern scripts param =
           (case find (\<lambda>s. name s = param) scripts of
              Some completeMatch \<Rightarrow> Inr \<lparr>script = completeMatch, substitutions = []\<rparr>
            | None \<Rightarrow> Inl (Error (''No script found for '' @ param))) \<and>
         (findMatchingScript scripts param = Inr found \<longrightarrow>
            name (script found) = param \<and> substitutions found = []) \<and>
         (placeholders (name s) \<noteq> [] \<and> name s \<noteq> param \<longrightarrow>
            findMatchingScript scripts param \<noteq> Inr \<lparr>script = s, substitutions = subs\<rparr>)"
proof -
  have n: "substituteName s param = (name s, [])"
    using assms by (rule substituteName_no_colon)
  have m: "matchByPattern scripts param =
           (case find (\<lambda>s. name s = param) scripts of
              Some completeMatch \<Rightarrow> Inr \<lparr>script = completeMatch, substitutions = []\<rparr>
            | None \<Rightarrow> Inl (Error (''No script found for '' @ param)))"
    using assms by (rule matchByPattern_no_colon)
  then have f: "findMatchingScript scripts param =
           (case find (\<lambda>s. name s = param) scripts of
              Some completeMatch \<Rightarrow> Inr \<lparr>script = completeMatch, substitutions = []\<rparr>
            | None \<Rightarrow> Inl (Error (''No script found for '' @ param)))"
    by (simp add: findMatchingScript_def split: option.splits)
  have r: "name (script found) = param \<and> substitutions found = []"
    if "findMatchingScript scripts param = Inr found" for found
    using that f by (auto simp: find_Some_iff split: option.splits)
  then have p: "placeholders (name s) \<noteq> [] \<and> name s \<noteq> param \<longrightarrow>
            findMatchingScript scripts param \<noteq> Inr \<lparr>script = s, substitutions = subs\<rparr>"
    by fastforce
  from n f m r p show ?thesis by blast
qed

theorem no_colon_exact_only_witness:
  "CHR '':'' \<notin> set ''deployprod'' \<and>
   placeholders (name examplePlain) = [''${env}''] \<and>
   substituteName examplePlain ''deployprod'' = (''deploy${env}'', []) \<and>
   findMatchingScript [examplePlain, exampleBuild] ''deployprod'' =
     Inl (Error ''No script found for deployprod'') \<and>
   findMatchingScript [examplePlain, exampleBuild] ''build'' =
     Inr \<lparr>script = exampleBuild, substitutions = []\<rparr>"
proof -
  have c: "CHR '':'' \<notin> set ''deployprod''" by simp
  have p: "placeholders (name examplePlain) = [''${env}'']" by code_simp
  have n: "name examplePlain = ''deploy${env}''" by code_simp
  have f: "find (\<lambda>s. name s = ''deployprod'') [examplePlain, exampleBuild] = None" by code_simp
  have b: "findMatchingScript [examplePlain, exampleBuild] ''build'' =
     Inr \<lparr>script = exampleBuild, substitutions = []\<rparr>" by code_simp
  from no_colon_exact_only [OF c, of examplePlain "[examplePlain, exampleBuild]"] f n
  have "substituteName examplePlain ''deployprod'' = (''deploy${env}'', []) \<and>
    findMatchingScript [examplePlain, exampleBuild] ''deployprod'' =
     Inl (Error ''No script found for deployprod'')" by simp
  with c p b show ?thesis by simp
qed


subsection \<open>The plan builder: unfolding, ledger, skip flags, fuel\<close>

lemma executeScript_Suc:
  "executeScript mm scripts skip (Suc fuel) ps phase steps ledger =
     (case runPhase mm scripts skip fuel (shouldExecutePre (script ps) ledger)
             (substitutedName ps) (phaseCommands (pre (script ps))) (substitutions ps) PRE ledger of
        OutOfFuel \<Rightarrow> OutOfFuel
      | Throw e \<Rightarrow> Throw e
      | Return (preSteps, ledger1) \<Rightarrow>
      case runPhase mm scripts skip fuel (length (command (script ps)) > 0)
             (substitutedName ps) (command (script ps)) (substitutions ps) COMMAND ledger1 of
        OutOfFuel \<Rightarrow> OutOfFuel
      | Throw e \<Rightarrow> Throw e
      | Return (commandSteps, ledger2) \<Rightarrow>
      case runPhase mm scripts skip fuel (shouldExecutePost (script ps) ledger2)
             (substitutedName ps) (phaseCommands (post (script ps))) (substitutions ps) POST ledger2 of
        OutOfFuel \<Rightarrow> OutOfFuel
      | Throw e \<Rightarrow> Throw e
      | Return (postSteps, ledger3) \<Rightarrow>
          Return (steps @ concat preSteps @ concat commandSteps @ concat postSteps,
                  ledger3 @ [name (script ps)]))"
  by (simp only: executeScript.simps runPhase_def Let_def)

lemma executeScript_Return:
  assumes "executeScript mm scripts skip (Suc fuel) ps phase steps ledger = Return (out, ledger')"
  obtains preSteps ledger1 commandSteps ledger2 postSteps ledger3 where
    "runPhase mm scripts skip fuel (shouldExecutePre (script ps) ledger)
       (substitutedName ps) (phaseCommands (pre (script ps))) (substitutions ps) PRE ledger =
     Return (preSteps, ledger1)"
    "runPhase mm scripts skip fuel (length (command (script ps)) > 0)
       (substitutedName ps) (command (script ps)) (substitutions ps) COMMAND ledger1 =
     Return (commandSteps, ledger2)"
    "runPhase mm scripts skip fuel (shouldExecutePost (script ps) ledger2)
       (substitutedName ps) (phaseCommands (post (script ps))) (substitutions ps) POST ledger2 =
     Return (postSteps, ledger3)"
    "out = steps @ concat preSteps @ concat commandSteps @ concat postSteps"
    "ledger' = ledger3 @ [name (script ps)]"
  using assms unfolding executeScript_Suc
  by (auto split: result.splits prod.splits)

lemma mapRunCommand_Return:
  assumes "mapRunCommand mm scripts skip fuel nm (cmd # cmds) subs phase ledger = Return (out, ledger')"
  obtains first ledger1 others where
    "runCommand mm scripts skip fuel nm cmd subs phase ledger = Return (first, ledger1)"
    "mapRunCommand mm scripts skip fuel nm cmds subs phase ledger1 = Return (others, ledger')"
    "out = first # others"
  using assms by (auto split: result.splits prod.splits)


declare executeScript.simps [simp del] runCommand.simps [simp del]

lemma runCommand_unfold:
  "runCommand mm scripts skip fuel nm commandToRun subs phase ledger =
     (if startsWith commandToRun bnrunPrefix then
        (case findMatchingScript scripts
                (substring (substitutedCommand subs commandToRun) (length bnrunPrefix)) of
           Inl e \<Rightarrow> Throw e
         | Inr found \<Rightarrow> executeScript mm scripts skip fuel found phase [] ledger)
      else
        Return ([\<lparr>step_script = nm, step_phase = phase,
                  step_command = substitutedCommand subs commandToRun,
                  step_skip = matchGlobPatterns mm [nm, substitutedCommand subs commandToRun]
                                (skipPatterns skip)\<rparr>],
                ledger))"
  by (simp only: runCommand.simps Let_def)

text \<open>The ledger only grows, and a finished script is its last entry.\<close>

lemma runCommand_ledger:
  assumes exec: "\<forall>ps phase steps ledger out ledger'.
       executeScript mm scripts skip fuel ps phase steps ledger = Return (out, ledger') \<longrightarrow>
       (\<exists>added. ledger' = ledger @ added)"
    and run: "runCommand mm scripts skip fuel nm cmd subs phase ledger = Return (out, ledger')"
  shows "\<exists>added. ledger' = ledger @ added"
  using run exec unfolding runCommand_unfold
  by (fastforce split: if_splits sum.splits)

lemma mapRunCommand_ledger:
  assumes exec: "\<forall>ps phase steps ledger out ledger'.
       executeScript mm scripts skip fuel ps phase steps ledger = Return (out, ledger') \<longrightarrow>
       (\<exists>added. ledger' = ledger @ added)"
    and run: "mapRunCommand mm scripts skip fuel nm cmds subs phase ledger = Return (out, ledger')"
  shows "\<exists>added. ledger' = ledger @ added"
  using run
proof (induction cmds arbitrary: ledger out)
  case Nil
  then show ?case by simp
next
  case (Cons cmd cmds)
  from Cons.prems obtain first ledger1 others where
    r: "runCommand mm scripts skip fuel nm cmd subs phase ledger = Return (first, ledger1)" and
    m: "mapRunCommand mm scripts skip fuel nm cmds subs phase ledger1 = Return (others, ledger')"
    by (rule mapRunCommand_Return)
  from runCommand_ledger [OF exec r] obtain a where "ledger1 = ledger @ a" by blast
  moreover from Cons.IH [OF m] obtain b where "ledger' = ledger1 @ b" by blast
  ultimately show ?case by simp
qed

lemma runPhase_ledger:
  assumes exec: "\<forall>ps phase steps ledger out ledger'.
       executeScript mm scripts skip fuel ps phase steps ledger = Return (out, ledger') \<longrightarrow>
       (\<exists>added. ledger' = ledger @ added)"
    and run: "runPhase mm scripts skip fuel eligible nm cmds subs phase ledger = Return (out, ledger')"
  shows "\<exists>added. ledger' = ledger @ added"
  using run mapRunCommand_ledger [OF exec]
  by (auto simp: runPhase_def split: if_splits)

lemma executeScript_ledger:
  "executeScript mm scripts skip fuel ps phase steps ledger = Return (out, ledger') \<Longrightarrow>
   \<exists>added. ledger' = ledger @ added @ [name (script ps)]"
proof (induction fuel arbitrary: ps phase steps ledger out ledger')
  case 0
  then show ?case by (simp add: executeScript.simps)
next
  case (Suc fuel)
  have exec: "\<forall>p ph st l ou l'.
       executeScript mm scripts skip fuel p ph st l = Return (ou, l') \<longrightarrow>
       (\<exists>added. l' = l @ added)"
    using Suc.IH by fastforce
  from Suc.prems obtain preSteps ledger1 commandSteps ledger2 postSteps ledger3 where
    p1: "runPhase mm scripts skip fuel (shouldExecutePre (script ps) ledger)
       (substitutedName ps) (phaseCommands (pre (script ps))) (substitutions ps) PRE ledger =
     Return (preSteps, ledger1)" and
    p2: "runPhase mm scripts skip fuel (length (command (script ps)) > 0)
       (substitutedName ps) (command (script ps)) (substitutions ps) COMMAND ledger1 =
     Return (commandSteps, ledger2)" and
    p3: "runPhase mm scripts skip fuel (shouldExecutePost (script ps) ledger2)
       (substitutedName ps) (phaseCommands (post (script ps))) (substitutions ps) POST ledger2 =
     Return (postSteps, ledger3)" and
    l: "ledger' = ledger3 @ [name (script ps)]"
    by (rule executeScript_Return)
  from runPhase_ledger [OF exec p1] obtain a where "ledger1 = ledger @ a" by blast
  moreover from runPhase_ledger [OF exec p2] obtain b where "ledger2 = ledger1 @ b" by blast
  moreover from runPhase_ledger [OF exec p3] obtain c where "ledger3 = ledger2 @ c" by blast
  ultimately show ?case using l by simp
qed


lemma matchGlobPatterns_iff:
  "matchGlobPatterns mm items patterns = (\<exists>item\<in>set items. \<exists>pattern\<in>set patterns. mm item pattern)"
  by (auto simp: matchGlobPatterns_def filter_empty_conv)

lemma runCommand_skip:
  assumes exec: "\<forall>ps phase ledger out ledger'.
       executeScript mm scripts skip fuel ps phase [] ledger = Return (out, ledger') \<longrightarrow>
       (\<forall>st\<in>set out. step_skip st = shouldSkip mm (skipPatterns skip) st)"
    and run: "runCommand mm scripts skip fuel nm cmd subs phase ledger = Return (out, ledger')"
  shows "\<forall>st\<in>set out. step_skip st = shouldSkip mm (skipPatterns skip) st"
proof (cases "startsWith cmd bnrunPrefix")
  case True
  with run exec show ?thesis
    unfolding runCommand_unfold by (simp split: sum.splits) blast
next
  case False
  with run show ?thesis
    unfolding runCommand_unfold by (auto simp: matchGlobPatterns_iff shouldSkip_def)
qed

lemma mapRunCommand_skip:
  assumes exec: "\<forall>ps phase ledger out ledger'.
       executeScript mm scripts skip fuel ps phase [] ledger = Return (out, ledger') \<longrightarrow>
       (\<forall>st\<in>set out. step_skip st = shouldSkip mm (skipPatterns skip) st)"
    and run: "mapRunCommand mm scripts skip fuel nm cmds subs phase ledger = Return (out, ledger')"
  shows "\<forall>st\<in>set (concat out). step_skip st = shouldSkip mm (skipPatterns skip) st"
  using run
proof (induction cmds arbitrary: ledger out)
  case Nil
  then show ?case by simp
next
  case (Cons cmd cmds)
  from Cons.prems obtain first ledger1 others where
    r: "runCommand mm scripts skip fuel nm cmd subs phase ledger = Return (first, ledger1)" and
    m: "mapRunCommand mm scripts skip fuel nm cmds subs phase ledger1 = Return (others, ledger')" and
    o: "out = first # others"
    by (rule mapRunCommand_Return)
  from runCommand_skip [OF exec r] Cons.IH [OF m] o show ?case by auto
qed

lemma runPhase_skip:
  assumes exec: "\<forall>ps phase ledger out ledger'.
       executeScript mm scripts skip fuel ps phase [] ledger = Return (out, ledger') \<longrightarrow>
       (\<forall>st\<in>set out. step_skip st = shouldSkip mm (skipPatterns skip) st)"
    and run: "runPhase mm scripts skip fuel eligible nm cmds subs phase ledger = Return (out, ledger')"
  shows "\<forall>st\<in>set (concat out). step_skip st = shouldSkip mm (skipPatterns skip) st"
  using run mapRunCommand_skip [OF exec]
  by (auto simp: runPhase_def split: if_splits)

lemma executeScript_skip:
  "executeScript mm scripts skip fuel ps phase [] ledger = Return (out, ledger') \<Longrightarrow>
   \<forall>st\<in>set out. step_skip st = shouldSkip mm (skipPatterns skip) st"
proof (induction fuel arbitrary: ps phase ledger out ledger')
  case 0
  then show ?case by (simp add: executeScript.simps)
next
  case (Suc fuel)
  have exec: "\<forall>ps phase ledger out ledger'.
       executeScript mm scripts skip fuel ps phase [] ledger = Return (out, ledger') \<longrightarrow>
       (\<forall>st\<in>set out. step_skip st = shouldSkip mm (skipPatterns skip) st)"
    using Suc.IH by blast
  from Suc.prems obtain preSteps ledger1 commandSteps ledger2 postSteps ledger3 where
    p1: "runPhase mm scripts skip fuel (shouldExecutePre (script ps) ledger)
       (substitutedName ps) (phaseCommands (pre (script ps))) (substitutions ps) PRE ledger =
     Return (preSteps, ledger1)" and
    p2: "runPhase mm scripts skip fuel (length (command (script ps)) > 0)
       (substitutedName ps) (command (script ps)) (substitutions ps) COMMAND ledger1 =
     Return (commandSteps, ledger2)" and
    p3: "runPhase mm scripts skip fuel (shouldExecutePost (script ps) ledger2)
       (substitutedName ps) (phaseCommands (post (script ps))) (substitutions ps) POST ledger2 =
     Return (postSteps, ledger3)" and
    o: "out = [] @ concat preSteps @ concat commandSteps @ concat postSteps"
    by (rule executeScript_Return)
  from runPhase_skip [OF exec p1] runPhase_skip [OF exec p2] runPhase_skip [OF exec p3] o
  show ?case by auto
qed

text \<open>More fuel does not change a call that has ended.\<close>

lemma runCommand_fuel:
  assumes exec: "\<forall>ps phase steps ledger.
       executeScript mm scripts skip fuel ps phase steps ledger \<noteq> OutOfFuel \<longrightarrow>
       executeScript mm scripts skip (Suc fuel) ps phase steps ledger =
       executeScript mm scripts skip fuel ps phase steps ledger"
    and run: "runCommand mm scripts skip fuel nm cmd subs phase ledger \<noteq> OutOfFuel"
  shows "runCommand mm scripts skip (Suc fuel) nm cmd subs phase ledger =
         runCommand mm scripts skip fuel nm cmd subs phase ledger"
  using run exec unfolding runCommand_unfold
  by (auto split: if_splits sum.splits)

lemma mapRunCommand_fuel:
  assumes exec: "\<forall>ps phase steps ledger.
       executeScript mm scripts skip fuel ps phase steps ledger \<noteq> OutOfFuel \<longrightarrow>
       executeScript mm scripts skip (Suc fuel) ps phase steps ledger =
       executeScript mm scripts skip fuel ps phase steps ledger"
    and run: "mapRunCommand mm scripts skip fuel nm cmds subs phase ledger \<noteq> OutOfFuel"
  shows "mapRunCommand mm scripts skip (Suc fuel) nm cmds subs phase ledger =
         mapRunCommand mm scripts skip fuel nm cmds subs phase ledger"
  using run
proof (induction cmds arbitrary: ledger)
  case Nil
  show ?case by simp
next
  case (Cons cmd cmds)
  from Cons.prems have r: "runCommand mm scripts skip fuel nm cmd subs phase ledger \<noteq> OutOfFuel"
    by (auto split: result.splits)
  note r' = runCommand_fuel [OF exec r]
  show ?case
  proof (cases "runCommand mm scripts skip fuel nm cmd subs phase ledger")
    case OutOfFuel
    with r show ?thesis by simp
  next
    case (Throw e)
    with r' show ?thesis by simp
  next
    case (Return x)
    obtain first ledger1 where x: "x = (first, ledger1)" by (cases x)
    from Cons.prems Return x
    have "mapRunCommand mm scripts skip fuel nm cmds subs phase ledger1 \<noteq> OutOfFuel"
      by (auto split: result.splits)
    from Cons.IH [OF this] Return x r' show ?thesis by simp
  qed
qed

lemma runPhase_fuel:
  assumes exec: "\<forall>ps phase steps ledger.
       executeScript mm scripts skip fuel ps phase steps ledger \<noteq> OutOfFuel \<longrightarrow>
       executeScript mm scripts skip (Suc fuel) ps phase steps ledger =
       executeScript mm scripts skip fuel ps phase steps ledger"
    and run: "runPhase mm scripts skip fuel eligible nm cmds subs phase ledger \<noteq> OutOfFuel"
  shows "runPhase mm scripts skip (Suc fuel) eligible nm cmds subs phase ledger =
         runPhase mm scripts skip fuel eligible nm cmds subs phase ledger"
  using run mapRunCommand_fuel [OF exec]
  by (auto simp: runPhase_def split: if_splits)

lemma executeScript_fuel_Suc:
  "executeScript mm scripts skip fuel ps phase steps ledger \<noteq> OutOfFuel \<Longrightarrow>
   executeScript mm scripts skip (Suc fuel) ps phase steps ledger =
   executeScript mm scripts skip fuel ps phase steps ledger"
proof (induction fuel arbitrary: ps phase steps ledger)
  case 0
  then show ?case by (simp add: executeScript.simps)
next
  case (Suc fuel)
  have exec: "\<forall>ps phase steps ledger.
       executeScript mm scripts skip fuel ps phase steps ledger \<noteq> OutOfFuel \<longrightarrow>
       executeScript mm scripts skip (Suc fuel) ps phase steps ledger =
       executeScript mm scripts skip fuel ps phase steps ledger"
    using Suc.IH by blast
  note ph = runPhase_fuel [OF exec]
  let ?pre = "\<lambda>f. runPhase mm scripts skip f (shouldExecutePre (script ps) ledger)
       (substitutedName ps) (phaseCommands (pre (script ps))) (substitutions ps) PRE ledger"
  let ?cmd = "\<lambda>f l. runPhase mm scripts skip f (length (command (script ps)) > 0)
       (substitutedName ps) (command (script ps)) (substitutions ps) COMMAND l"
  let ?post = "\<lambda>f l. runPhase mm scripts skip f (shouldExecutePost (script ps) l)
       (substitutedName ps) (phaseCommands (post (script ps))) (substitutions ps) POST l"
  from Suc.prems have a: "?pre fuel \<noteq> OutOfFuel"
    unfolding executeScript_Suc by (auto split: result.splits)
  then have a': "?pre (Suc fuel) = ?pre fuel" by (rule ph)
  show ?case
  proof (cases "?pre fuel")
    case OutOfFuel
    with a show ?thesis by simp
  next
    case (Throw e)
    with a' show ?thesis unfolding executeScript_Suc [of _ _ _ "Suc fuel"] executeScript_Suc [of _ _ _ fuel]
      by simp
  next
    case (Return x)
    obtain preSteps l1 where x: "x = (preSteps, l1)" by (cases x)
    from Suc.prems Return x have b: "?cmd fuel l1 \<noteq> OutOfFuel"
      unfolding executeScript_Suc by (auto split: result.splits)
    then have b': "?cmd (Suc fuel) l1 = ?cmd fuel l1" by (rule ph)
    show ?thesis
    proof (cases "?cmd fuel l1")
      case OutOfFuel
      with b show ?thesis by simp
    next
      case (Throw e)
      with a' b' Return x show ?thesis
        unfolding executeScript_Suc [of _ _ _ "Suc fuel"] executeScript_Suc [of _ _ _ fuel]
        by simp
    next
      case Return2: (Return y)
      obtain commandSteps l2 where y: "y = (commandSteps, l2)" by (cases y)
      from Suc.prems Return x Return2 y have c: "?post fuel l2 \<noteq> OutOfFuel"
        unfolding executeScript_Suc by (auto split: result.splits)
      then have c': "?post (Suc fuel) l2 = ?post fuel l2" by (rule ph)
      from a' b' c' Return x Return2 y show ?thesis
        unfolding executeScript_Suc [of _ _ _ "Suc fuel"] executeScript_Suc [of _ _ _ fuel]
        by simp
    qed
  qed
qed

lemma executeScript_fuel:
  "executeScript mm scripts skip fuel ps phase steps ledger \<noteq> OutOfFuel \<Longrightarrow>
   executeScript mm scripts skip (fuel + extra) ps phase steps ledger =
   executeScript mm scripts skip fuel ps phase steps ledger"
proof (induction extra)
  case 0
  show ?case by simp
next
  case (Suc extra)
  then have "executeScript mm scripts skip (fuel + extra) ps phase steps ledger \<noteq> OutOfFuel"
    by simp
  from executeScript_fuel_Suc [OF this] Suc show ?case by simp
qed


subsection \<open>The skip filter\<close>

text \<open>
  C7. The skip flag of a step is true exactly when some pattern of the list matches its
  script name or its command text: this is what \<^verbatim>\<open>matchGlobPatterns\<close> computes for the two
  strings, it is the flag of the step that \<^verbatim>\<open>runCommand\<close> emits, and it holds for every step
  of a plan; with no pattern no step is skipped.
\<close>

theorem skip_flag:
  "matchGlobPatterns mm [scriptNm, cmd] patterns =
     (\<exists>pattern\<in>set patterns. mm scriptNm pattern \<or> mm cmd pattern) \<and>
   matchGlobPatterns mm items [] = False \<and>
   (\<not> startsWith commandToRun bnrunPrefix \<longrightarrow>
      (\<exists>st. runCommand mm scripts skip fuel scriptNm commandToRun subs phase ledger =
              Return ([st], ledger) \<and>
            step_skip st = shouldSkip mm (skipPatterns skip) st)) \<and>
   (buildSteps mm scripts skip fuel target = Return plan \<longrightarrow>
      (\<forall>st\<in>set plan. step_skip st = shouldSkip mm (skipPatterns skip) st)) \<and>
   shouldSkip mm [] st = False"
proof (intro conjI impI)
  show "matchGlobPatterns mm [scriptNm, cmd] patterns =
     (\<exists>pattern\<in>set patterns. mm scriptNm pattern \<or> mm cmd pattern)"
    by (auto simp: matchGlobPatterns_iff)
  show "matchGlobPatterns mm items [] = False"
    by (simp add: matchGlobPatterns_iff)
  show "shouldSkip mm [] st = False"
    by (simp add: shouldSkip_def)
next
  assume "\<not> startsWith commandToRun bnrunPrefix"
  then show "\<exists>st. runCommand mm scripts skip fuel scriptNm commandToRun subs phase ledger =
              Return ([st], ledger) \<and>
            step_skip st = shouldSkip mm (skipPatterns skip) st"
    by (auto simp: runCommand_unfold matchGlobPatterns_iff shouldSkip_def)
next
  assume b: "buildSteps mm scripts skip fuel target = Return plan"
  then obtain found ledger where
    "executeScript mm scripts skip fuel found COMMAND [] [] = Return (plan, ledger)"
    by (auto simp: buildSteps_def split: sum.splits result.splits)
  then show "\<forall>st\<in>set plan. step_skip st = shouldSkip mm (skipPatterns skip) st"
    by (rule executeScript_skip)
qed

theorem skip_flag_witness:
  "buildSteps (\<lambda>item pattern. pattern = ''echo*'' \<and> take 4 item = ''echo'')
     [exampleBuild, exampleDeploy, exampleAll] (Some [''echo*'']) 2 ''build'' =
     Return [exampleSkipStep] \<and>
   step_skip exampleSkipStep \<and>
   shouldSkip (\<lambda>item pattern. pattern = ''echo*'' \<and> take 4 item = ''echo'')
     (skipPatterns (Some [''echo*''])) exampleSkipStep \<and>
   \<not> startsWith ''echo A'' bnrunPrefix"
proof -
  let ?mm = "\<lambda>item pattern. pattern = ''echo*'' \<and> take 4 item = ''echo''"
  have b: "buildSteps ?mm [exampleBuild, exampleDeploy, exampleAll] (Some [''echo*'']) 2 ''build'' =
     Return [exampleSkipStep]"
    by code_simp
  have s: "step_skip exampleSkipStep" by code_simp
  have n: "\<not> startsWith ''echo A'' bnrunPrefix" by code_simp
  from skip_flag [where mm = ?mm and scripts = "[exampleBuild, exampleDeploy, exampleAll]"
      and skip = "Some [''echo*'']" and fuel = 2 and target = "''build''"
      and plan = "[exampleSkipStep]" and commandToRun = "''echo A''"] b s n
  have "shouldSkip ?mm (skipPatterns (Some [''echo*''])) exampleSkipStep" by simp
  with b s n show ?thesis by simp
qed


subsection \<open>Phases and the ledger\<close>

lemma shouldExecutePre_iff:
  "shouldExecutePre s ledger =
     (phaseCommands (pre s) \<noteq> [] \<and> (\<not> runOnceSet s opt_pre \<or> name s \<notin> set ledger))"
  by (auto simp: shouldExecutePre_def phaseCommands_def runOnceSet_def split: option.splits)

lemma shouldExecutePost_iff:
  "shouldExecutePost s ledger =
     (phaseCommands (post s) \<noteq> [] \<and> (\<not> runOnceSet s opt_post \<or> name s \<notin> set ledger))"
  by (auto simp: shouldExecutePost_def phaseCommands_def runOnceSet_def split: option.splits)

text \<open>With a registry of non-empty command lists every expansion yields a step.\<close>

lemma runCommand_nonempty:
  assumes reg: "\<forall>s\<in>set scripts. command s \<noteq> []"
    and exec: "\<forall>ps phase ledger out ledger'. script ps \<in> set scripts \<longrightarrow>
       executeScript mm scripts skip fuel ps phase [] ledger = Return (out, ledger') \<longrightarrow> out \<noteq> []"
    and run: "runCommand mm scripts skip fuel nm cmd subs phase ledger = Return (out, ledger')"
  shows "out \<noteq> []"
proof (cases "startsWith cmd bnrunPrefix")
  case True
  with run obtain found where
    f: "findMatchingScript scripts (substring (substitutedCommand subs cmd) (length bnrunPrefix)) =
        Inr found" and
    e: "executeScript mm scripts skip fuel found phase [] ledger = Return (out, ledger')"
    unfolding runCommand_unfold by (auto split: sum.splits)
  from findMatchingScript_Inr(1) [OF f] e exec show ?thesis by blast
next
  case False
  with run show ?thesis unfolding runCommand_unfold by auto
qed

lemma mapRunCommand_nonempty:
  assumes reg: "\<forall>s\<in>set scripts. command s \<noteq> []"
    and exec: "\<forall>ps phase ledger out ledger'. script ps \<in> set scripts \<longrightarrow>
       executeScript mm scripts skip fuel ps phase [] ledger = Return (out, ledger') \<longrightarrow> out \<noteq> []"
    and run: "mapRunCommand mm scripts skip fuel nm cmds subs phase ledger = Return (out, ledger')"
    and cmds: "cmds \<noteq> []"
  shows "concat out \<noteq> []"
proof -
  from cmds obtain cmd rest where c: "cmds = cmd # rest" by (cases cmds) auto
  from run c have "mapRunCommand mm scripts skip fuel nm (cmd # rest) subs phase ledger =
      Return (out, ledger')" by simp
  then obtain first ledger1 others where
    r: "runCommand mm scripts skip fuel nm cmd subs phase ledger = Return (first, ledger1)" and
    o: "out = first # others"
    by (rule mapRunCommand_Return)
  from runCommand_nonempty [OF reg exec r] o show ?thesis by simp
qed

lemma executeScript_nonempty:
  assumes reg: "\<forall>s\<in>set scripts. command s \<noteq> []"
  shows "script ps \<in> set scripts \<Longrightarrow>
         executeScript mm scripts skip fuel ps phase [] ledger = Return (out, ledger') \<Longrightarrow>
         out \<noteq> []"
proof (induction fuel arbitrary: ps phase ledger out ledger')
  case 0
  then show ?case by (simp add: executeScript.simps)
next
  case (Suc fuel)
  have exec: "\<forall>ps phase ledger out ledger'. script ps \<in> set scripts \<longrightarrow>
       executeScript mm scripts skip fuel ps phase [] ledger = Return (out, ledger') \<longrightarrow> out \<noteq> []"
    using Suc.IH by blast
  from Suc.prems(2) obtain preSteps ledger1 commandSteps ledger2 postSteps where
    p2: "runPhase mm scripts skip fuel (length (command (script ps)) > 0)
       (substitutedName ps) (command (script ps)) (substitutions ps) COMMAND ledger1 =
     Return (commandSteps, ledger2)" and
    o: "out = [] @ concat preSteps @ concat commandSteps @ concat postSteps"
    by (rule executeScript_Return)
  from Suc.prems(1) reg have ne: "command (script ps) \<noteq> []" by blast
  with p2 have "mapRunCommand mm scripts skip fuel (substitutedName ps) (command (script ps))
      (substitutions ps) COMMAND ledger1 = Return (commandSteps, ledger2)"
    by (simp add: runPhase_def)
  from mapRunCommand_nonempty [OF reg exec this ne] o show ?case by simp
qed

lemma runPhase_nonempty:
  assumes reg: "\<forall>s\<in>set scripts. command s \<noteq> []"
    and run: "runPhase mm scripts skip fuel eligible nm cmds subs phase ledger = Return (out, ledger')"
  shows "(concat out \<noteq> []) = (eligible \<and> cmds \<noteq> [])"
proof (cases "eligible \<and> cmds \<noteq> []")
  case True
  have exec: "\<forall>ps phase ledger out ledger'. script ps \<in> set scripts \<longrightarrow>
       executeScript mm scripts skip fuel ps phase [] ledger = Return (out, ledger') \<longrightarrow> out \<noteq> []"
    using executeScript_nonempty [OF reg] by blast
  from True run have "mapRunCommand mm scripts skip fuel nm cmds subs phase ledger = Return (out, ledger')"
    by (simp add: runPhase_def)
  from mapRunCommand_nonempty [OF reg exec this] True show ?thesis by simp
next
  case False
  with run show ?thesis by (auto simp: runPhase_def split: if_splits)
qed

text \<open>
  C6. The pre phase is run exactly when the script has pre commands and either run-once
  is not set for pre or the template name is not in the ledger; the post phase likewise,
  on the ledger as the command phase leaves it. A phase that is not run adds nothing, and
  over a registry of non-empty command lists a phase that is run adds at least one step.
  When the call returns, the template name has been appended to the ledger, whatever
  the options are.
\<close>

theorem phase_eligibility:
  "shouldExecutePre s ledger =
     (phaseCommands (pre s) \<noteq> [] \<and> (\<not> runOnceSet s opt_pre \<or> name s \<notin> set ledger)) \<and>
   shouldExecutePost s ledger =
     (phaseCommands (post s) \<noteq> [] \<and> (\<not> runOnceSet s opt_post \<or> name s \<notin> set ledger)) \<and>
   (executeScript mm scripts skip (Suc fuel) ps phase steps ledger = Return (out, ledger') \<longrightarrow>
      (\<exists>preSteps ledger1 commandSteps ledger2 postSteps ledger3.
         runPhase mm scripts skip fuel (shouldExecutePre (script ps) ledger)
           (substitutedName ps) (phaseCommands (pre (script ps))) (substitutions ps) PRE ledger =
           Return (preSteps, ledger1) \<and>
         runPhase mm scripts skip fuel (length (command (script ps)) > 0)
           (substitutedName ps) (command (script ps)) (substitutions ps) COMMAND ledger1 =
           Return (commandSteps, ledger2) \<and>
         runPhase mm scripts skip fuel (shouldExecutePost (script ps) ledger2)
           (substitutedName ps) (phaseCommands (post (script ps))) (substitutions ps) POST ledger2 =
           Return (postSteps, ledger3) \<and>
         out = steps @ concat preSteps @ concat commandSteps @ concat postSteps \<and>
         ledger' = ledger3 @ [name (script ps)] \<and>
         (\<not> shouldExecutePre (script ps) ledger \<longrightarrow> preSteps = [] \<and> ledger1 = ledger) \<and>
         (\<not> shouldExecutePost (script ps) ledger2 \<longrightarrow> postSteps = [] \<and> ledger3 = ledger2) \<and>
         ((\<forall>s\<in>set scripts. command s \<noteq> []) \<longrightarrow>
            (concat preSteps \<noteq> []) = shouldExecutePre (script ps) ledger \<and>
            (concat postSteps \<noteq> []) = shouldExecutePost (script ps) ledger2)))"
proof (intro conjI impI)
  show "shouldExecutePre s ledger =
     (phaseCommands (pre s) \<noteq> [] \<and> (\<not> runOnceSet s opt_pre \<or> name s \<notin> set ledger))"
    by (rule shouldExecutePre_iff)
  show "shouldExecutePost s ledger =
     (phaseCommands (post s) \<noteq> [] \<and> (\<not> runOnceSet s opt_post \<or> name s \<notin> set ledger))"
    by (rule shouldExecutePost_iff)
next
  assume "executeScript mm scripts skip (Suc fuel) ps phase steps ledger = Return (out, ledger')"
  then obtain preSteps ledger1 commandSteps ledger2 postSteps ledger3 where
    p1: "runPhase mm scripts skip fuel (shouldExecutePre (script ps) ledger)
       (substitutedName ps) (phaseCommands (pre (script ps))) (substitutions ps) PRE ledger =
     Return (preSteps, ledger1)" and
    p2: "runPhase mm scripts skip fuel (length (command (script ps)) > 0)
       (substitutedName ps) (command (script ps)) (substitutions ps) COMMAND ledger1 =
     Return (commandSteps, ledger2)" and
    p3: "runPhase mm scripts skip fuel (shouldExecutePost (script ps) ledger2)
       (substitutedName ps) (phaseCommands (post (script ps))) (substitutions ps) POST ledger2 =
     Return (postSteps, ledger3)" and
    o: "out = steps @ concat preSteps @ concat commandSteps @ concat postSteps" and
    l: "ledger' = ledger3 @ [name (script ps)]"
    by (rule executeScript_Return)
  have q1: "\<not> shouldExecutePre (script ps) ledger \<longrightarrow> preSteps = [] \<and> ledger1 = ledger"
    using p1 by (auto simp: runPhase_def)
  have q3: "\<not> shouldExecutePost (script ps) ledger2 \<longrightarrow> postSteps = [] \<and> ledger3 = ledger2"
    using p3 by (auto simp: runPhase_def)
  have q4: "(\<forall>s\<in>set scripts. command s \<noteq> []) \<longrightarrow>
            (concat preSteps \<noteq> []) = shouldExecutePre (script ps) ledger \<and>
            (concat postSteps \<noteq> []) = shouldExecutePost (script ps) ledger2"
  proof
    assume reg: "\<forall>s\<in>set scripts. command s \<noteq> []"
    from runPhase_nonempty [OF reg p1] runPhase_nonempty [OF reg p3]
    show "(concat preSteps \<noteq> []) = shouldExecutePre (script ps) ledger \<and>
          (concat postSteps \<noteq> []) = shouldExecutePost (script ps) ledger2"
      by (auto simp: shouldExecutePre_iff shouldExecutePost_iff)
  qed
  from p1 p2 p3 o l q1 q3 q4
  show "\<exists>preSteps ledger1 commandSteps ledger2 postSteps ledger3.
         runPhase mm scripts skip fuel (shouldExecutePre (script ps) ledger)
           (substitutedName ps) (phaseCommands (pre (script ps))) (substitutions ps) PRE ledger =
           Return (preSteps, ledger1) \<and>
         runPhase mm scripts skip fuel (length (command (script ps)) > 0)
           (substitutedName ps) (command (script ps)) (substitutions ps) COMMAND ledger1 =
           Return (commandSteps, ledger2) \<and>
         runPhase mm scripts skip fuel (shouldExecutePost (script ps) ledger2)
           (substitutedName ps) (phaseCommands (post (script ps))) (substitutions ps) POST ledger2 =
           Return (postSteps, ledger3) \<and>
         out = steps @ concat preSteps @ concat commandSteps @ concat postSteps \<and>
         ledger' = ledger3 @ [name (script ps)] \<and>
         (\<not> shouldExecutePre (script ps) ledger \<longrightarrow> preSteps = [] \<and> ledger1 = ledger) \<and>
         (\<not> shouldExecutePost (script ps) ledger2 \<longrightarrow> postSteps = [] \<and> ledger3 = ledger2) \<and>
         ((\<forall>s\<in>set scripts. command s \<noteq> []) \<longrightarrow>
            (concat preSteps \<noteq> []) = shouldExecutePre (script ps) ledger \<and>
            (concat postSteps \<noteq> []) = shouldExecutePost (script ps) ledger2)"
    by blast
qed


theorem phase_eligibility_witness:
  "runOnceSet exampleRunOnce opt_pre \<and>
   shouldExecutePre exampleRunOnce [] \<and>
   \<not> shouldExecutePre exampleRunOnce [''build:${project}:production''] \<and>
   shouldExecutePost exampleRunOnce [''build:${project}:production''] \<and>
   executeScript (\<lambda>item pattern. False) [exampleRunOnce, exampleBuildAll] None (Suc 0)
     exampleProjectB COMMAND [] [''build:${project}:production''] =
   Return ([\<lparr>step_script = ''build:projectB:production'', step_phase = COMMAND,
              step_command = ''some-build command-for projectB'', step_skip = False\<rparr>,
            \<lparr>step_script = ''build:projectB:production'', step_phase = POST,
              step_command = ''some-post command-for projectB'', step_skip = False\<rparr>],
           [''build:${project}:production'', ''build:${project}:production''])"
proof -
  let ?ledger = "[''build:${project}:production'']"
  have ro: "runOnceSet exampleRunOnce opt_pre" by code_simp
  have nm: "name exampleRunOnce = ''build:${project}:production''" by code_simp
  have pc: "phaseCommands (pre exampleRunOnce) \<noteq> []" by code_simp
  have post: "shouldExecutePost exampleRunOnce ?ledger" by code_simp
  have run: "executeScript (\<lambda>item pattern. False) [exampleRunOnce, exampleBuildAll] None (Suc 0)
     exampleProjectB COMMAND [] ?ledger =
   Return ([\<lparr>step_script = ''build:projectB:production'', step_phase = COMMAND,
              step_command = ''some-build command-for projectB'', step_skip = False\<rparr>,
            \<lparr>step_script = ''build:projectB:production'', step_phase = POST,
              step_command = ''some-post command-for projectB'', step_skip = False\<rparr>],
           [''build:${project}:production'', ''build:${project}:production''])"
    by code_simp
  from phase_eligibility [where s = exampleRunOnce and ledger = "[]"] ro pc
  have a: "shouldExecutePre exampleRunOnce []" by simp
  from phase_eligibility [where s = exampleRunOnce and ledger = ?ledger] ro nm
  have b: "\<not> shouldExecutePre exampleRunOnce ?ledger" by simp
  from ro a b post run show ?thesis by simp
qed


subsection \<open>The order of the steps\<close>

lemma mapRunCommand_append:
  "mapRunCommand mm scripts skip fuel nm (earlier @ later) subs phase ledger = Return (outs, ledger') \<Longrightarrow>
   \<exists>a ledger1 b.
     mapRunCommand mm scripts skip fuel nm earlier subs phase ledger = Return (a, ledger1) \<and>
     mapRunCommand mm scripts skip fuel nm later subs phase ledger1 = Return (b, ledger') \<and>
     outs = a @ b \<and> length a = length earlier \<and> length b = length later"
proof (induction earlier arbitrary: ledger outs)
  case Nil
  have len: "length b = length later"
    if "mapRunCommand mm scripts skip fuel nm later subs phase l = Return (b, l')" for l b l'
    using that
  proof (induction later arbitrary: l b)
    case Nil
    then show ?case by simp
  next
    case (Cons c cs)
    from Cons.prems obtain first l1 others where
      "mapRunCommand mm scripts skip fuel nm cs subs phase l1 = Return (others, l')"
      "b = first # others"
      by (rule mapRunCommand_Return)
    with Cons.IH show ?case by auto
  qed
  from Nil len show ?case by auto
next
  case (Cons cmd earlier)
  from Cons.prems have
    "mapRunCommand mm scripts skip fuel nm (cmd # (earlier @ later)) subs phase ledger =
     Return (outs, ledger')" by simp
  then obtain first l1 others where
    r: "runCommand mm scripts skip fuel nm cmd subs phase ledger = Return (first, l1)" and
    m: "mapRunCommand mm scripts skip fuel nm (earlier @ later) subs phase l1 = Return (others, ledger')" and
    o: "outs = first # others"
    by (rule mapRunCommand_Return)
  from Cons.IH [OF m] obtain a l2 b where
    "mapRunCommand mm scripts skip fuel nm earlier subs phase l1 = Return (a, l2)"
    "mapRunCommand mm scripts skip fuel nm later subs phase l2 = Return (b, ledger')"
    "others = a @ b" "length a = length earlier" "length b = length later"
    by blast
  with r o show ?case by auto
qed

lemma mapRunCommand_Throw:
  "mapRunCommand mm scripts skip fuel nm earlier subs phase ledger = Return (outs, ledger1) \<Longrightarrow>
   runCommand mm scripts skip fuel nm cmd subs phase ledger1 = Throw e \<Longrightarrow>
   mapRunCommand mm scripts skip fuel nm (earlier @ cmd # later) subs phase ledger = Throw e"
proof (induction earlier arbitrary: ledger outs)
  case Nil
  then show ?case by simp
next
  case (Cons c cs)
  from Cons.prems(1) obtain first l1 others where
    r: "runCommand mm scripts skip fuel nm c subs phase ledger = Return (first, l1)" and
    m: "mapRunCommand mm scripts skip fuel nm cs subs phase l1 = Return (others, ledger1)"
    by (rule mapRunCommand_Return)
  from Cons.IH [OF m Cons.prems(2)] r show ?case by simp
qed

text \<open>
  C2. The plan of a script is the steps of its pre phase, then those of its command
  phase, then those of its post phase. Within a phase every command contributes what
  \<^verbatim>\<open>runCommand\<close> returns for it (one step, or the steps of the nested script), at the place
  of the command among its siblings. The script \<^verbatim>\<open>all\<close> of the example, which invokes
  \<^verbatim>\<open>build\<close> and \<^verbatim>\<open>deploy:prod\<close>, flattens to the three steps of the specification, with any
  fuel from two on.
\<close>

theorem phase_order:
  "(executeScript mm scripts skip (Suc fuel) ps phase [] ledger = Return (out, ledger') \<longrightarrow>
      (\<exists>preSteps ledger1 commandSteps ledger2 postSteps ledger3.
         runPhase mm scripts skip fuel (shouldExecutePre (script ps) ledger)
           (substitutedName ps) (phaseCommands (pre (script ps))) (substitutions ps) PRE ledger =
           Return (preSteps, ledger1) \<and>
         runPhase mm scripts skip fuel (length (command (script ps)) > 0)
           (substitutedName ps) (command (script ps)) (substitutions ps) COMMAND ledger1 =
           Return (commandSteps, ledger2) \<and>
         runPhase mm scripts skip fuel (shouldExecutePost (script ps) ledger2)
           (substitutedName ps) (phaseCommands (post (script ps))) (substitutions ps) POST ledger2 =
           Return (postSteps, ledger3) \<and>
         out = concat preSteps @ concat commandSteps @ concat postSteps)) \<and>
   (mapRunCommand mm scripts skip fuel nm (earlier @ cmd # later) subs ph ledger =
      Return (outs, ledger') \<longrightarrow>
      (\<exists>a ledger1 r ledger2 b.
         mapRunCommand mm scripts skip fuel nm earlier subs ph ledger = Return (a, ledger1) \<and>
         runCommand mm scripts skip fuel nm cmd subs ph ledger1 = Return (r, ledger2) \<and>
         mapRunCommand mm scripts skip fuel nm later subs ph ledger2 = Return (b, ledger') \<and>
         outs = a @ r # b \<and> length a = length earlier \<and> length b = length later \<and>
         concat outs = concat a @ r @ concat b)) \<and>
   buildSteps mm [exampleBuild, exampleDeploy, exampleAll] None (2 + extra) ''all'' =
     Return [\<lparr>step_script = ''build'', step_phase = COMMAND, step_command = ''echo A'',
               step_skip = False\<rparr>,
             \<lparr>step_script = ''deploy:prod'', step_phase = PRE, step_command = ''echo setup'',
               step_skip = False\<rparr>,
             \<lparr>step_script = ''deploy:prod'', step_phase = COMMAND,
               step_command = ''echo deploy prod'', step_skip = False\<rparr>]"
proof (intro conjI impI)
  assume "executeScript mm scripts skip (Suc fuel) ps phase [] ledger = Return (out, ledger')"
  then obtain preSteps ledger1 commandSteps ledger2 postSteps ledger3 where
    "runPhase mm scripts skip fuel (shouldExecutePre (script ps) ledger)
       (substitutedName ps) (phaseCommands (pre (script ps))) (substitutions ps) PRE ledger =
     Return (preSteps, ledger1)"
    "runPhase mm scripts skip fuel (length (command (script ps)) > 0)
       (substitutedName ps) (command (script ps)) (substitutions ps) COMMAND ledger1 =
     Return (commandSteps, ledger2)"
    "runPhase mm scripts skip fuel (shouldExecutePost (script ps) ledger2)
       (substitutedName ps) (phaseCommands (post (script ps))) (substitutions ps) POST ledger2 =
     Return (postSteps, ledger3)"
    "out = [] @ concat preSteps @ concat commandSteps @ concat postSteps"
    by (rule executeScript_Return)
  then show "\<exists>preSteps ledger1 commandSteps ledger2 postSteps ledger3.
         runPhase mm scripts skip fuel (shouldExecutePre (script ps) ledger)
           (substitutedName ps) (phaseCommands (pre (script ps))) (substitutions ps) PRE ledger =
           Return (preSteps, ledger1) \<and>
         runPhase mm scripts skip fuel (length (command (script ps)) > 0)
           (substitutedName ps) (command (script ps)) (substitutions ps) COMMAND ledger1 =
           Return (commandSteps, ledger2) \<and>
         runPhase mm scripts skip fuel (shouldExecutePost (script ps) ledger2)
           (substitutedName ps) (phaseCommands (post (script ps))) (substitutions ps) POST ledger2 =
           Return (postSteps, ledger3) \<and>
         out = concat preSteps @ concat commandSteps @ concat postSteps"
    by auto
next
  assume "mapRunCommand mm scripts skip fuel nm (earlier @ cmd # later) subs ph ledger =
      Return (outs, ledger')"
  from mapRunCommand_append [OF this] obtain a ledger1 b where
    a: "mapRunCommand mm scripts skip fuel nm earlier subs ph ledger = Return (a, ledger1)" and
    b: "mapRunCommand mm scripts skip fuel nm (cmd # later) subs ph ledger1 = Return (b, ledger')" and
    o: "outs = a @ b" "length a = length earlier" "length b = length (cmd # later)"
    by blast
  from b obtain r ledger2 others where
    r: "runCommand mm scripts skip fuel nm cmd subs ph ledger1 = Return (r, ledger2)" and
    m: "mapRunCommand mm scripts skip fuel nm later subs ph ledger2 = Return (others, ledger')" and
    b': "b = r # others"
    by (rule mapRunCommand_Return)
  from a r m o b'
  show "\<exists>a ledger1 r ledger2 b.
         mapRunCommand mm scripts skip fuel nm earlier subs ph ledger = Return (a, ledger1) \<and>
         runCommand mm scripts skip fuel nm cmd subs ph ledger1 = Return (r, ledger2) \<and>
         mapRunCommand mm scripts skip fuel nm later subs ph ledger2 = Return (b, ledger') \<and>
         outs = a @ r # b \<and> length a = length earlier \<and> length b = length later \<and>
         concat outs = concat a @ r @ concat b"
    by auto
next
  let ?found = "\<lparr>script = exampleAll, substitutions = []\<rparr>"
  let ?plan = "[\<lparr>step_script = ''build'', step_phase = COMMAND, step_command = ''echo A'',
               step_skip = False\<rparr>,
             \<lparr>step_script = ''deploy:prod'', step_phase = PRE, step_command = ''echo setup'',
               step_skip = False\<rparr>,
             \<lparr>step_script = ''deploy:prod'', step_phase = COMMAND,
               step_command = ''echo deploy prod'', step_skip = False\<rparr>]"
  have f: "findMatchingScript [exampleBuild, exampleDeploy, exampleAll] ''all'' = Inr ?found"
    by code_simp
  have e: "executeScript mm [exampleBuild, exampleDeploy, exampleAll] None 2 ?found COMMAND [] [] =
      Return (?plan, [''build'', ''deploy:${env}'', ''all''])"
    by code_simp
  have "executeScript mm [exampleBuild, exampleDeploy, exampleAll] None (2 + extra) ?found
      COMMAND [] [] = Return (?plan, [''build'', ''deploy:${env}'', ''all''])"
    using executeScript_fuel [of mm "[exampleBuild, exampleDeploy, exampleAll]" None 2 ?found
        COMMAND "[]" "[]" extra] e
    by simp
  with f show "buildSteps mm [exampleBuild, exampleDeploy, exampleAll] None (2 + extra) ''all'' =
      Return ?plan"
    by (simp add: buildSteps_def)
qed

theorem phase_order_witness:
  "executeScript (\<lambda>item pattern. False) [exampleRunOnce, exampleBuildAll] None (Suc 0)
     \<lparr>script = exampleRunOnce,
      substitutions = [\<lparr>sub_param = ''${project}'', sub_value = ''projectA''\<rparr>]\<rparr> COMMAND [] [] =
   Return ([\<lparr>step_script = ''build:projectA:production'', step_phase = PRE,
              step_command = ''some-pre command-for-projects'', step_skip = False\<rparr>,
            \<lparr>step_script = ''build:projectA:production'', step_phase = COMMAND,
              step_command = ''some-build command-for projectA'', step_skip = False\<rparr>,
            \<lparr>step_script = ''build:projectA:production'', step_phase = POST,
              step_command = ''some-post command-for projectA'', step_skip = False\<rparr>],
           [''build:${project}:production'']) \<and>
   (\<exists>preSteps commandSteps postSteps.
      [\<lparr>step_script = ''build:projectA:production'', step_phase = PRE,
              step_command = ''some-pre command-for-projects'', step_skip = False\<rparr>,
            \<lparr>step_script = ''build:projectA:production'', step_phase = COMMAND,
              step_command = ''some-build command-for projectA'', step_skip = False\<rparr>,
            \<lparr>step_script = ''build:projectA:production'', step_phase = POST,
              step_command = ''some-post command-for projectA'', step_skip = False\<rparr>] =
      concat preSteps @ concat commandSteps @ concat postSteps) \<and>
   buildSteps (\<lambda>item pattern. False) [exampleBuild, exampleDeploy, exampleAll] None 7 ''all'' =
     Return [\<lparr>step_script = ''build'', step_phase = COMMAND, step_command = ''echo A'',
               step_skip = False\<rparr>,
             \<lparr>step_script = ''deploy:prod'', step_phase = PRE, step_command = ''echo setup'',
               step_skip = False\<rparr>,
             \<lparr>step_script = ''deploy:prod'', step_phase = COMMAND,
               step_command = ''echo deploy prod'', step_skip = False\<rparr>]"
proof -
  let ?mm = "\<lambda>item pattern. False"
  let ?ps = "\<lparr>script = exampleRunOnce,
      substitutions = [\<lparr>sub_param = ''${project}'', sub_value = ''projectA''\<rparr>]\<rparr>"
  let ?out = "[\<lparr>step_script = ''build:projectA:production'', step_phase = PRE,
              step_command = ''some-pre command-for-projects'', step_skip = False\<rparr>,
            \<lparr>step_script = ''build:projectA:production'', step_phase = COMMAND,
              step_command = ''some-build command-for projectA'', step_skip = False\<rparr>,
            \<lparr>step_script = ''build:projectA:production'', step_phase = POST,
              step_command = ''some-post command-for projectA'', step_skip = False\<rparr>]"
  have run: "executeScript ?mm [exampleRunOnce, exampleBuildAll] None (Suc 0) ?ps COMMAND [] [] =
     Return (?out, [''build:${project}:production''])"
    by code_simp
  note order = phase_order [where mm = ?mm and scripts = "[exampleRunOnce, exampleBuildAll]"
      and skip = None and fuel = 0 and ps = ?ps and phase = COMMAND and ledger = "[]"
      and out = ?out and ledger' = "[''build:${project}:production'']" and extra = 5]
  from order run
  have "\<exists>preSteps commandSteps postSteps.
      ?out = concat preSteps @ concat commandSteps @ concat postSteps"
    by blast
  moreover from order
  have "buildSteps ?mm [exampleBuild, exampleDeploy, exampleAll] None 7 ''all'' =
     Return [\<lparr>step_script = ''build'', step_phase = COMMAND, step_command = ''echo A'',
               step_skip = False\<rparr>,
             \<lparr>step_script = ''deploy:prod'', step_phase = PRE, step_command = ''echo setup'',
               step_skip = False\<rparr>,
             \<lparr>step_script = ''deploy:prod'', step_phase = COMMAND,
               step_command = ''echo deploy prod'', step_skip = False\<rparr>]"
    by simp
  ultimately show ?thesis using run by simp
qed


subsection \<open>A script that is not there\<close>

text \<open>
  C9. When no template has the requested name and none becomes the requested name by
  substitution, the resolver throws the error whose message names the request. At the
  top level the plan builder then ends with that error and no steps; for a nested
  invocation \<^verbatim>\<open>runCommand\<close> ends with it, and an error thrown by a command ends the list of
  commands, the phase, the script and the whole pass with the same error, whatever the
  earlier commands have produced.
\<close>

theorem script_not_found:
  assumes nomatch: "\<forall>s\<in>set scripts. name s \<noteq> requested \<and> fst (substituteName s requested) \<noteq> requested"
  shows "findMatchingScript scripts requested = Inl (Error (''No script found for '' @ requested)) \<and>
    buildSteps mm scripts skip fuel requested = Throw (Error (''No script found for '' @ requested)) \<and>
    (startsWith commandToRun bnrunPrefix \<and>
     substring (substitutedCommand subs commandToRun) (length bnrunPrefix) = requested \<longrightarrow>
       runCommand mm scripts skip fuel nm commandToRun subs phase ledger =
         Throw (Error (''No script found for '' @ requested))) \<and>
    (mapRunCommand mm scripts skip fuel nm earlier subs phase ledger = Return (outs, ledger1) \<and>
     runCommand mm scripts skip fuel nm cmd subs phase ledger1 = Throw e \<longrightarrow>
       mapRunCommand mm scripts skip fuel nm (earlier @ cmd # later) subs phase ledger = Throw e) \<and>
    (runPhase mm scripts skip fuel (shouldExecutePre (script ps) ledger)
       (substitutedName ps) (phaseCommands (pre (script ps))) (substitutions ps) PRE ledger = Throw e \<longrightarrow>
       executeScript mm scripts skip (Suc fuel) ps phase steps ledger = Throw e) \<and>
    (runPhase mm scripts skip fuel (shouldExecutePre (script ps) ledger)
       (substitutedName ps) (phaseCommands (pre (script ps))) (substitutions ps) PRE ledger =
       Return (preSteps, ledger1) \<and>
     runPhase mm scripts skip fuel (length (command (script ps)) > 0)
       (substitutedName ps) (command (script ps)) (substitutions ps) COMMAND ledger1 = Throw e \<longrightarrow>
       executeScript mm scripts skip (Suc fuel) ps phase steps ledger = Throw e) \<and>
    (runPhase mm scripts skip fuel (shouldExecutePre (script ps) ledger)
       (substitutedName ps) (phaseCommands (pre (script ps))) (substitutions ps) PRE ledger =
       Return (preSteps, ledger1) \<and>
     runPhase mm scripts skip fuel (length (command (script ps)) > 0)
       (substitutedName ps) (command (script ps)) (substitutions ps) COMMAND ledger1 =
       Return (commandSteps, ledger2) \<and>
     runPhase mm scripts skip fuel (shouldExecutePost (script ps) ledger2)
       (substitutedName ps) (phaseCommands (post (script ps))) (substitutions ps) POST ledger2 = Throw e \<longrightarrow>
       executeScript mm scripts skip (Suc fuel) ps phase steps ledger = Throw e) \<and>
    (startsWith commandToRun bnrunPrefix \<and>
     findMatchingScript scripts (substring (substitutedCommand subs commandToRun) (length bnrunPrefix)) =
       Inr found \<and>
     executeScript mm scripts skip fuel found phase [] ledger = Throw e \<longrightarrow>
       runCommand mm scripts skip fuel nm commandToRun subs phase ledger = Throw e) \<and>
    (findMatchingScript scripts target = Inr found \<and>
     executeScript mm scripts skip fuel found COMMAND [] [] = Throw e \<longrightarrow>
       buildSteps mm scripts skip fuel target = Throw e)"
proof -
  from nomatch have "find (\<lambda>s. name s = requested) scripts = None"
    by (simp add: find_None_iff)
  moreover from nomatch
  have "matchByPattern scripts requested = Inl (Error (''No script found for '' @ requested))"
    by (simp add: matchByPattern_none)
  ultimately have f: "findMatchingScript scripts requested =
      Inl (Error (''No script found for '' @ requested))"
    by (simp add: findMatchingScript_def)
  then have b: "buildSteps mm scripts skip fuel requested =
      Throw (Error (''No script found for '' @ requested))"
    by (simp add: buildSteps_def)
  from f have r: "startsWith commandToRun bnrunPrefix \<and>
     substring (substitutedCommand subs commandToRun) (length bnrunPrefix) = requested \<longrightarrow>
       runCommand mm scripts skip fuel nm commandToRun subs phase ledger =
         Throw (Error (''No script found for '' @ requested))"
    by (simp add: runCommand_unfold)
  have m: "mapRunCommand mm scripts skip fuel nm earlier subs phase ledger = Return (outs, ledger1) \<and>
     runCommand mm scripts skip fuel nm cmd subs phase ledger1 = Throw e \<longrightarrow>
       mapRunCommand mm scripts skip fuel nm (earlier @ cmd # later) subs phase ledger = Throw e"
    by (blast intro: mapRunCommand_Throw)
  have n: "startsWith commandToRun bnrunPrefix \<and>
     findMatchingScript scripts (substring (substitutedCommand subs commandToRun) (length bnrunPrefix)) =
       Inr found \<and>
     executeScript mm scripts skip fuel found phase [] ledger = Throw e \<longrightarrow>
       runCommand mm scripts skip fuel nm commandToRun subs phase ledger = Throw e"
    by (simp add: runCommand_unfold)
  have t: "findMatchingScript scripts target = Inr found \<and>
     executeScript mm scripts skip fuel found COMMAND [] [] = Throw e \<longrightarrow>
       buildSteps mm scripts skip fuel target = Throw e"
    by (simp add: buildSteps_def)
  from f b r m n t show ?thesis
    by (simp add: executeScript_Suc)
qed

theorem script_not_found_witness:
  "findMatchingScript [exampleBuild, exampleBroken] ''missing'' =
     Inl (Error ''No script found for missing'') \<and>
   buildSteps (\<lambda>item pattern. False) [exampleBuild, exampleBroken] None 2 ''missing'' =
     Throw (Error ''No script found for missing'') \<and>
   runCommand (\<lambda>item pattern. False) [exampleBuild, exampleBroken] None 1 ''broken''
     ''bnrun missing'' [] COMMAND [''build''] = Throw (Error ''No script found for missing'') \<and>
   buildSteps (\<lambda>item pattern. False) [exampleBuild, exampleBroken] None 2 ''broken'' =
     Throw (Error ''No script found for missing'')"
proof -
  let ?mm = "\<lambda>item pattern. False"
  let ?scripts = "[exampleBuild, exampleBroken]"
  have nomatch: "\<forall>s\<in>set ?scripts. name s \<noteq> ''missing'' \<and>
      fst (substituteName s ''missing'') \<noteq> ''missing''"
    by code_simp
  have pre: "startsWith ''bnrun missing'' bnrunPrefix \<and>
     substring (substitutedCommand [] ''bnrun missing'') (length bnrunPrefix) = ''missing''"
    by code_simp
  have top: "buildSteps ?mm ?scripts None 2 ''broken'' = Throw (Error ''No script found for missing'')"
    by code_simp
  note nf = script_not_found [OF nomatch, where mm = ?mm and skip = None and subs = "[]"
      and commandToRun = "''bnrun missing''" and nm = "''broken''" and phase = COMMAND
      and ledger = "[''build'']"]
  from nf [where fuel = 2]
  have a: "findMatchingScript ?scripts ''missing'' = Inl (Error ''No script found for missing'')"
    and b: "buildSteps ?mm ?scripts None 2 ''missing'' = Throw (Error ''No script found for missing'')"
    by simp_all
  from nf [where fuel = 1] pre
  have c: "runCommand ?mm ?scripts None 1 ''broken'' ''bnrun missing'' [] COMMAND [''build''] =
      Throw (Error ''No script found for missing'')"
    by simp
  from a b c top show ?thesis by simp
qed


subsection \<open>Nested invocations\<close>

text \<open>
  Every binding of the resolver has a placeholder for its parameter, which begins with a
  dollar sign; replacing such parameters leaves the marker at the start of a command
  where it is.
\<close>

lemma placeholders_dollar:
  "token \<in> set (placeholders s) \<Longrightarrow> \<exists>t. token = CHR ''$'' # t"
proof (induction s rule: placeholders.induct)
  case 1
  then show ?case by simp
next
  case (2 c cs)
  show ?case
  proof (cases "matchPlaceholder (c # cs)")
    case None
    with 2 show ?thesis by simp
  next
    case (Some x)
    obtain tok rest where x: "x = (tok, rest)" by (cases x)
    with Some have m: "matchPlaceholder (c # cs) = Some (tok, rest)" by simp
    from matchPlaceholder_token [OF m] have "\<exists>t. tok = CHR ''$'' # t" by auto
    with "2.IH"(2) [OF Some x [symmetric]] "2.prems" m show ?thesis by auto
  qed
qed

lemma fold_substituteStep_params:
  "sub \<in> set (snd (fold (substituteStep v) tokens acc)) \<Longrightarrow>
   sub \<in> set (snd acc) \<or> sub_param sub \<in> set tokens"
proof (induction tokens arbitrary: acc)
  case Nil
  then show ?case by simp
next
  case (Cons token tokens)
  from Cons.prems have "sub \<in> set (snd (fold (substituteStep v) tokens (substituteStep v token acc)))"
    by simp
  from Cons.IH [OF this]
  have "sub \<in> set (snd (substituteStep v token acc)) \<or> sub_param sub \<in> set tokens" .
  moreover have "sub \<in> set (snd (substituteStep v token acc)) \<Longrightarrow>
      sub \<in> set (snd acc) \<or> sub_param sub = token"
    by (auto simp: substituteStep_def split: option.splits if_splits)
  ultimately show ?case by auto
qed

lemma findMatchingScript_params:
  assumes "findMatchingScript scripts param = Inr found" "sub \<in> set (substitutions found)"
  shows "\<exists>t. sub_param sub = CHR ''$'' # t"
proof -
  from findMatchingScript_Inr(2) [OF assms(1)] assms(2)
  have "sub \<in> set (snd (substituteName (script found) param))" by auto
  then have "sub_param sub \<in> set (placeholders (name (script found)))"
    unfolding substituteName_def by (auto dest: fold_substituteStep_params)
  then show ?thesis by (rule placeholders_dollar)
qed

lemma splitAtFirst_keeps_prefix:
  assumes "hd pat \<notin> set lead" "pat \<noteq> []"
  shows "splitAtFirst pat (lead @ s) = Some (front, behind) \<Longrightarrow> \<exists>f. front = lead @ f"
  using assms(1)
proof (induction lead arbitrary: front)
  case Nil
  show ?case by simp
next
  case (Cons c cs)
  from assms(2) obtain p ps where p: "pat = p # ps" by (cases pat) auto
  with Cons.prems(2) have "c \<noteq> p" by auto
  with p have "take (length pat) (c # cs @ s) \<noteq> pat" by auto
  with Cons.prems(1) obtain b where b: "splitAtFirst pat (cs @ s) = Some (b, behind)" "front = c # b"
    by (auto split: option.splits)
  from Cons.prems(2) have "hd pat \<notin> set cs" by simp
  from Cons.IH [OF b(1) this] b(2) show ?case by auto
qed

lemma js_replaceAll_keeps_prefix:
  assumes "hd pat \<notin> set lead" "pat \<noteq> []"
  shows "\<exists>r. js_replaceAll (lead @ s) pat repl = lead @ r"
proof (cases "splitAtFirst pat (lead @ s)")
  case None
  then show ?thesis by (simp add: js_replaceAll_def replaceAllFrom.simps [of "[]" "lead @ s"])
next
  case (Some x)
  obtain front behind where x: "x = (front, behind)" by (cases x)
  with Some splitAtFirst_keeps_prefix [OF assms, of s front behind]
  obtain f where "front = lead @ f" by auto
  with Some x show ?thesis
    by (simp add: js_replaceAll_def replaceAllFrom.simps [of "[]" "lead @ s"])
qed

lemma substitutedCommand_keeps_marker:
  assumes "\<forall>sub\<in>set subs. \<exists>t. sub_param sub = CHR ''$'' # t"
  shows "\<exists>r. substitutedCommand subs (bnrunPrefix @ s) = bnrunPrefix @ r"
  using assms
proof (induction subs arbitrary: s)
  case Nil
  show ?case by (simp add: substitutedCommand_def)
next
  case (Cons sub subs)
  from Cons.prems obtain t where t: "sub_param sub = CHR ''$'' # t" by auto
  then have "hd (sub_param sub) \<notin> set bnrunPrefix" "sub_param sub \<noteq> []"
    by (simp_all add: bnrunPrefix_def)
  from js_replaceAll_keeps_prefix [OF this] obtain r where
    r: "js_replaceAll (bnrunPrefix @ s) (sub_param sub) (sub_value sub) = bnrunPrefix @ r"
    by blast
  from Cons.prems have "\<forall>sub\<in>set subs. \<exists>t. sub_param sub = CHR ''$'' # t" by simp
  from Cons.IH [OF this, of r] r show ?case by (simp add: substitutedCommand_def)
qed

lemma startsWith_iff: "startsWith s p = (\<exists>r. s = p @ r)"
  by (auto simp: startsWith_def) (metis append_take_drop_id)

text \<open>
  C3, as the claim states it, fails: the test for the marker reads the command template,
  not the substituted command. The script \<^verbatim>\<open>run:${tool}\<close> with the command
  \<^verbatim>\<open>${tool} build\<close>, requested as \<^verbatim>\<open>run:bnrun\<close>, has the substituted command
  \<^verbatim>\<open>bnrun build\<close>, which begins with the marker and names the script \<^verbatim>\<open>build\<close>; the plan is
  the single step \<^verbatim>\<open>bnrun build\<close> and not the step of \<^verbatim>\<open>build\<close>.
\<close>

theorem marker_after_substitution_counterexample:
  "findMatchingScript [exampleBuild, exampleRunTool] ''run:bnrun'' =
     Inr \<lparr>script = exampleRunTool,
          substitutions = [\<lparr>sub_param = ''${tool}'', sub_value = ''bnrun''\<rparr>]\<rparr> \<and>
   substitutedCommand [\<lparr>sub_param = ''${tool}'', sub_value = ''bnrun''\<rparr>] ''${tool} build'' =
     ''bnrun build'' \<and>
   startsWith ''bnrun build'' bnrunPrefix \<and>
   findMatchingScript [exampleBuild, exampleRunTool] (substring ''bnrun build'' (length bnrunPrefix)) =
     Inr \<lparr>script = exampleBuild, substitutions = []\<rparr> \<and>
   executeScript (\<lambda>item pattern. False) [exampleBuild, exampleRunTool] None 1
     \<lparr>script = exampleBuild, substitutions = []\<rparr> COMMAND [] [] =
     Return ([\<lparr>step_script = ''build'', step_phase = COMMAND, step_command = ''echo A'',
                step_skip = False\<rparr>], [''build'']) \<and>
   runCommand (\<lambda>item pattern. False) [exampleBuild, exampleRunTool] None 1 ''run:bnrun''
     ''${tool} build'' [\<lparr>sub_param = ''${tool}'', sub_value = ''bnrun''\<rparr>] COMMAND [] =
     Return ([\<lparr>step_script = ''run:bnrun'', step_phase = COMMAND,
                step_command = ''bnrun build'', step_skip = False\<rparr>], []) \<and>
   buildSteps (\<lambda>item pattern. False) [exampleBuild, exampleRunTool] None 2 ''run:bnrun'' =
     Return [\<lparr>step_script = ''run:bnrun'', step_phase = COMMAND,
               step_command = ''bnrun build'', step_skip = False\<rparr>]"
  by code_simp

text \<open>
  C3, amended. When the command template begins with \<^verbatim>\<open>bnrun \<close>, the substituted command
  without its first six characters is resolved and the nested script is built with the
  same phase argument, on the ledger as it stands; its steps take the place of the
  command among the steps of its siblings. Otherwise exactly one step is emitted, with
  the phase, the display name and the substituted command. With the bindings of the
  resolver the substituted command of the first case begins with the marker too, so
  that what is resolved is the text that follows the marker.
\<close>

theorem nested_invocation:
  "(startsWith commandToRun bnrunPrefix \<longrightarrow>
      runCommand mm scripts skip fuel nm commandToRun subs phase ledger =
        (case findMatchingScript scripts
                (substring (substitutedCommand subs commandToRun) (length bnrunPrefix)) of
           Inl e \<Rightarrow> Throw e
         | Inr found \<Rightarrow> executeScript mm scripts skip fuel found phase [] ledger)) \<and>
   (\<not> startsWith commandToRun bnrunPrefix \<longrightarrow>
      runCommand mm scripts skip fuel nm commandToRun subs phase ledger =
        Return ([\<lparr>step_script = nm, step_phase = phase,
                  step_command = substitutedCommand subs commandToRun,
                  step_skip = matchGlobPatterns mm [nm, substitutedCommand subs commandToRun]
                                (skipPatterns skip)\<rparr>], ledger)) \<and>
   (startsWith commandToRun bnrunPrefix \<and>
    mapRunCommand mm scripts skip fuel nm (earlier @ commandToRun # later) subs phase ledger =
      Return (outs, ledger') \<longrightarrow>
      (\<exists>a ledger1 found nested ledger2 b.
         mapRunCommand mm scripts skip fuel nm earlier subs phase ledger = Return (a, ledger1) \<and>
         findMatchingScript scripts
           (substring (substitutedCommand subs commandToRun) (length bnrunPrefix)) = Inr found \<and>
         executeScript mm scripts skip fuel found phase [] ledger1 = Return (nested, ledger2) \<and>
         mapRunCommand mm scripts skip fuel nm later subs phase ledger2 = Return (b, ledger') \<and>
         concat outs = concat a @ nested @ concat b)) \<and>
   (startsWith commandToRun bnrunPrefix \<and> (\<forall>sub\<in>set subs. \<exists>t. sub_param sub = CHR ''$'' # t) \<longrightarrow>
      substitutedCommand subs commandToRun =
        bnrunPrefix @ substring (substitutedCommand subs commandToRun) (length bnrunPrefix)) \<and>
   (findMatchingScript scripts requested = Inr resolved \<longrightarrow>
      (\<forall>sub\<in>set (substitutions resolved). \<exists>t. sub_param sub = CHR ''$'' # t))"
proof (intro conjI impI)
  assume "findMatchingScript scripts requested = Inr resolved"
  then show "\<forall>sub\<in>set (substitutions resolved). \<exists>t. sub_param sub = CHR ''$'' # t"
    by (blast dest: findMatchingScript_params)
next
  assume a: "startsWith commandToRun bnrunPrefix \<and>
      (\<forall>sub\<in>set subs. \<exists>t. sub_param sub = CHR ''$'' # t)"
  then obtain s where "commandToRun = bnrunPrefix @ s" by (auto simp: startsWith_iff)
  with a substitutedCommand_keeps_marker [of subs s] obtain r where
    "substitutedCommand subs commandToRun = bnrunPrefix @ r" by auto
  then show "substitutedCommand subs commandToRun =
        bnrunPrefix @ substring (substitutedCommand subs commandToRun) (length bnrunPrefix)"
    by (simp add: substring_def)
next
  assume "startsWith commandToRun bnrunPrefix"
  then show "runCommand mm scripts skip fuel nm commandToRun subs phase ledger =
        (case findMatchingScript scripts
                (substring (substitutedCommand subs commandToRun) (length bnrunPrefix)) of
           Inl e \<Rightarrow> Throw e
         | Inr found \<Rightarrow> executeScript mm scripts skip fuel found phase [] ledger)"
    by (simp add: runCommand_unfold)
next
  assume "\<not> startsWith commandToRun bnrunPrefix"
  then show "runCommand mm scripts skip fuel nm commandToRun subs phase ledger =
        Return ([\<lparr>step_script = nm, step_phase = phase,
                  step_command = substitutedCommand subs commandToRun,
                  step_skip = matchGlobPatterns mm [nm, substitutedCommand subs commandToRun]
                                (skipPatterns skip)\<rparr>], ledger)"
    by (simp add: runCommand_unfold)
next
  assume a: "startsWith commandToRun bnrunPrefix \<and>
    mapRunCommand mm scripts skip fuel nm (earlier @ commandToRun # later) subs phase ledger =
      Return (outs, ledger')"
  then have "mapRunCommand mm scripts skip fuel nm (earlier @ commandToRun # later) subs phase ledger =
      Return (outs, ledger')" by simp
  from mapRunCommand_append [OF this] obtain a ledger1 b where
    e: "mapRunCommand mm scripts skip fuel nm earlier subs phase ledger = Return (a, ledger1)" and
    b: "mapRunCommand mm scripts skip fuel nm (commandToRun # later) subs phase ledger1 =
        Return (b, ledger')" and
    o: "outs = a @ b"
    by blast
  from b obtain r ledger2 others where
    r: "runCommand mm scripts skip fuel nm commandToRun subs phase ledger1 = Return (r, ledger2)" and
    m: "mapRunCommand mm scripts skip fuel nm later subs phase ledger2 = Return (others, ledger')" and
    b': "b = r # others"
    by (rule mapRunCommand_Return)
  from r a obtain found where
    f: "findMatchingScript scripts
           (substring (substitutedCommand subs commandToRun) (length bnrunPrefix)) = Inr found" and
    x: "executeScript mm scripts skip fuel found phase [] ledger1 = Return (r, ledger2)"
    by (auto simp: runCommand_unfold split: sum.splits)
  from e f x m o b'
  show "\<exists>a ledger1 found nested ledger2 b.
         mapRunCommand mm scripts skip fuel nm earlier subs phase ledger = Return (a, ledger1) \<and>
         findMatchingScript scripts
           (substring (substitutedCommand subs commandToRun) (length bnrunPrefix)) = Inr found \<and>
         executeScript mm scripts skip fuel found phase [] ledger1 = Return (nested, ledger2) \<and>
         mapRunCommand mm scripts skip fuel nm later subs phase ledger2 = Return (b, ledger') \<and>
         concat outs = concat a @ nested @ concat b"
    by auto
qed

theorem nested_invocation_witness:
  "startsWith ''bnrun deploy:prod'' bnrunPrefix \<and>
   \<not> startsWith ''${tool} build'' bnrunPrefix \<and>
   runCommand (\<lambda>item pattern. False) [exampleBuild, exampleDeploy, exampleAll] None 1 ''all''
     ''bnrun deploy:prod'' [] COMMAND [''build''] =
   executeScript (\<lambda>item pattern. False) [exampleBuild, exampleDeploy, exampleAll] None 1
     \<lparr>script = exampleDeploy,
      substitutions = [\<lparr>sub_param = ''${env}'', sub_value = ''prod''\<rparr>]\<rparr> COMMAND [] [''build''] \<and>
   runCommand (\<lambda>item pattern. False) [exampleBuild, exampleDeploy, exampleAll] None 1 ''all''
     ''bnrun deploy:prod'' [] COMMAND [''build''] =
   Return ([\<lparr>step_script = ''deploy:prod'', step_phase = PRE, step_command = ''echo setup'',
              step_skip = False\<rparr>,
            \<lparr>step_script = ''deploy:prod'', step_phase = COMMAND,
              step_command = ''echo deploy prod'', step_skip = False\<rparr>],
           [''build'', ''deploy:${env}'']) \<and>
   runCommand (\<lambda>item pattern. False) [exampleBuild, exampleDeploy, exampleAll] None 1 ''run:bnrun''
     ''${tool} build'' [\<lparr>sub_param = ''${tool}'', sub_value = ''bnrun''\<rparr>] COMMAND [] =
   Return ([\<lparr>step_script = ''run:bnrun'', step_phase = COMMAND,
              step_command = ''bnrun build'', step_skip = False\<rparr>], [])"
proof -
  let ?mm = "\<lambda>item pattern. False"
  let ?scripts = "[exampleBuild, exampleDeploy, exampleAll]"
  have p: "startsWith ''bnrun deploy:prod'' bnrunPrefix" by code_simp
  have q: "\<not> startsWith ''${tool} build'' bnrunPrefix" by code_simp
  have f: "findMatchingScript ?scripts
      (substring (substitutedCommand [] ''bnrun deploy:prod'') (length bnrunPrefix)) =
    Inr \<lparr>script = exampleDeploy,
         substitutions = [\<lparr>sub_param = ''${env}'', sub_value = ''prod''\<rparr>]\<rparr>"
    by code_simp
  have e: "executeScript ?mm ?scripts None 1
     \<lparr>script = exampleDeploy,
      substitutions = [\<lparr>sub_param = ''${env}'', sub_value = ''prod''\<rparr>]\<rparr> COMMAND [] [''build''] =
   Return ([\<lparr>step_script = ''deploy:prod'', step_phase = PRE, step_command = ''echo setup'',
              step_skip = False\<rparr>,
            \<lparr>step_script = ''deploy:prod'', step_phase = COMMAND,
              step_command = ''echo deploy prod'', step_skip = False\<rparr>],
           [''build'', ''deploy:${env}''])"
    by code_simp
  have c: "substitutedCommand [\<lparr>sub_param = ''${tool}'', sub_value = ''bnrun''\<rparr>] ''${tool} build'' =
      ''bnrun build''" by code_simp
  have g: "matchGlobPatterns ?mm [''run:bnrun'', ''bnrun build''] (skipPatterns None) = False"
    by code_simp
  from nested_invocation [where mm = ?mm and scripts = ?scripts and skip = None and fuel = 1
      and nm = "''all''" and commandToRun = "''bnrun deploy:prod''" and subs = "[]"
      and phase = COMMAND and ledger = "[''build'']"] p f
  have a: "runCommand ?mm ?scripts None 1 ''all'' ''bnrun deploy:prod'' [] COMMAND [''build''] =
     executeScript ?mm ?scripts None 1
       \<lparr>script = exampleDeploy,
        substitutions = [\<lparr>sub_param = ''${env}'', sub_value = ''prod''\<rparr>]\<rparr> COMMAND [] [''build'']"
    by simp
  from nested_invocation [where mm = ?mm and scripts = ?scripts and skip = None and fuel = 1
      and nm = "''run:bnrun''" and commandToRun = "''${tool} build''"
      and subs = "[\<lparr>sub_param = ''${tool}'', sub_value = ''bnrun''\<rparr>]"
      and phase = COMMAND and ledger = "[]"] q c g
  have b: "runCommand ?mm ?scripts None 1 ''run:bnrun''
     ''${tool} build'' [\<lparr>sub_param = ''${tool}'', sub_value = ''bnrun''\<rparr>] COMMAND [] =
   Return ([\<lparr>step_script = ''run:bnrun'', step_phase = COMMAND,
              step_command = ''bnrun build'', step_skip = False\<rparr>], [])"
    by simp
  from p q a b e show ?thesis by simp
qed

subsection \<open>Run once\<close>

lemma mapRunCommand_grows:
  assumes "mapRunCommand mm scripts skip fuel nm cmds subs phase ledger = Return (out, ledger')"
  shows "\<exists>added. ledger' = ledger @ added"
proof -
  have "\<forall>ps phase steps ledger out ledger'.
       executeScript mm scripts skip fuel ps phase steps ledger = Return (out, ledger') \<longrightarrow>
       (\<exists>added. ledger' = ledger @ added)"
    by (blast dest: executeScript_ledger)
  from mapRunCommand_ledger [OF this assms] show ?thesis .
qed

lemma mapRunCommand_split:
  assumes "mapRunCommand mm scripts skip fuel nm (earlier @ cmd # later) subs phase ledger =
      Return (outs, ledger')"
  obtains a ledger1 r ledger2 b where
    "mapRunCommand mm scripts skip fuel nm earlier subs phase ledger = Return (a, ledger1)"
    "runCommand mm scripts skip fuel nm cmd subs phase ledger1 = Return (r, ledger2)"
    "mapRunCommand mm scripts skip fuel nm later subs phase ledger2 = Return (b, ledger')"
    "outs = a @ r # b"
proof -
  from mapRunCommand_append [OF assms] obtain a ledger1 b where
    a: "mapRunCommand mm scripts skip fuel nm earlier subs phase ledger = Return (a, ledger1)" and
    b: "mapRunCommand mm scripts skip fuel nm (cmd # later) subs phase ledger1 = Return (b, ledger')" and
    o: "outs = a @ b"
    by blast
  from b obtain r ledger2 others where
    "runCommand mm scripts skip fuel nm cmd subs phase ledger1 = Return (r, ledger2)"
    "mapRunCommand mm scripts skip fuel nm later subs phase ledger2 = Return (others, ledger')"
    "b = r # others"
    by (rule mapRunCommand_Return)
  with a o that show thesis by simp
qed

lemma run_once_siblings:
  assumes ro: "runOnceSet s opt_pre"
    and c1: "startsWith c1 bnrunPrefix"
      "findMatchingScript scripts (substring (substitutedCommand subs c1) (length bnrunPrefix)) =
         Inr \<lparr>script = s, substitutions = subs1\<rparr>"
    and c2: "startsWith c2 bnrunPrefix"
      "findMatchingScript scripts (substring (substitutedCommand subs c2) (length bnrunPrefix)) =
         Inr \<lparr>script = s, substitutions = subs2\<rparr>"
    and run: "mapRunCommand mm scripts skip fuel nm (earlier @ c1 # between @ c2 # later) subs phase
        ledger = Return (outs, ledger')"
  shows "\<exists>f a ledger1 preSteps ledgerA commandSteps1 ledgerB postSteps1 ledgerC m ledger3
            commandSteps2 ledgerD postSteps2 ledgerE b.
      fuel = Suc f \<and>
      mapRunCommand mm scripts skip fuel nm earlier subs phase ledger = Return (a, ledger1) \<and>
      runPhase mm scripts skip f (shouldExecutePre s ledger1)
        (substitutedName \<lparr>script = s, substitutions = subs1\<rparr>) (phaseCommands (pre s)) subs1
        PRE ledger1 = Return (preSteps, ledgerA) \<and>
      runPhase mm scripts skip f (length (command s) > 0)
        (substitutedName \<lparr>script = s, substitutions = subs1\<rparr>) (command s) subs1
        COMMAND ledgerA = Return (commandSteps1, ledgerB) \<and>
      runPhase mm scripts skip f (shouldExecutePost s ledgerB)
        (substitutedName \<lparr>script = s, substitutions = subs1\<rparr>) (phaseCommands (post s)) subs1
        POST ledgerB = Return (postSteps1, ledgerC) \<and>
      mapRunCommand mm scripts skip fuel nm between subs phase (ledgerC @ [name s]) =
        Return (m, ledger3) \<and>
      \<not> shouldExecutePre s ledger3 \<and>
      runPhase mm scripts skip f (length (command s) > 0)
        (substitutedName \<lparr>script = s, substitutions = subs2\<rparr>) (command s) subs2
        COMMAND ledger3 = Return (commandSteps2, ledgerD) \<and>
      runPhase mm scripts skip f (shouldExecutePost s ledgerD)
        (substitutedName \<lparr>script = s, substitutions = subs2\<rparr>) (phaseCommands (post s)) subs2
        POST ledgerD = Return (postSteps2, ledgerE) \<and>
      mapRunCommand mm scripts skip fuel nm later subs phase (ledgerE @ [name s]) =
        Return (b, ledger') \<and>
      concat outs =
        concat a @ (concat preSteps @ concat commandSteps1 @ concat postSteps1) @ concat m @
        (concat commandSteps2 @ concat postSteps2) @ concat b"
proof -
  let ?ps1 = "\<lparr>script = s, substitutions = subs1\<rparr>"
  let ?ps2 = "\<lparr>script = s, substitutions = subs2\<rparr>"
  from run obtain a ledger1 r1 ledger2 rest where
    a: "mapRunCommand mm scripts skip fuel nm earlier subs phase ledger = Return (a, ledger1)" and
    r1: "runCommand mm scripts skip fuel nm c1 subs phase ledger1 = Return (r1, ledger2)" and
    rest: "mapRunCommand mm scripts skip fuel nm (between @ c2 # later) subs phase ledger2 =
        Return (rest, ledger')" and
    o1: "outs = a @ r1 # rest"
    by (rule mapRunCommand_split)
  from rest obtain m ledger3 r2 ledger4 b where
    m: "mapRunCommand mm scripts skip fuel nm between subs phase ledger2 = Return (m, ledger3)" and
    r2: "runCommand mm scripts skip fuel nm c2 subs phase ledger3 = Return (r2, ledger4)" and
    b: "mapRunCommand mm scripts skip fuel nm later subs phase ledger4 = Return (b, ledger')" and
    o2: "rest = m @ r2 # b"
    by (rule mapRunCommand_split)
  from r1 c1 have e1: "executeScript mm scripts skip fuel ?ps1 phase [] ledger1 = Return (r1, ledger2)"
    by (simp add: runCommand_unfold)
  from r2 c2 have e2: "executeScript mm scripts skip fuel ?ps2 phase [] ledger3 = Return (r2, ledger4)"
    by (simp add: runCommand_unfold)
  from e1 obtain f where f: "fuel = Suc f"
    by (cases fuel) (simp_all add: executeScript.simps)
  from e1 [unfolded f] obtain preSteps ledgerA commandSteps1 ledgerB postSteps1 ledgerC where
    p1: "runPhase mm scripts skip f (shouldExecutePre (script ?ps1) ledger1)
       (substitutedName ?ps1) (phaseCommands (pre (script ?ps1))) (substitutions ?ps1) PRE ledger1 =
     Return (preSteps, ledgerA)" and
    p2: "runPhase mm scripts skip f (length (command (script ?ps1)) > 0)
       (substitutedName ?ps1) (command (script ?ps1)) (substitutions ?ps1) COMMAND ledgerA =
     Return (commandSteps1, ledgerB)" and
    p3: "runPhase mm scripts skip f (shouldExecutePost (script ?ps1) ledgerB)
       (substitutedName ?ps1) (phaseCommands (post (script ?ps1))) (substitutions ?ps1) POST ledgerB =
     Return (postSteps1, ledgerC)" and
    o3: "r1 = [] @ concat preSteps @ concat commandSteps1 @ concat postSteps1" and
    l2: "ledger2 = ledgerC @ [name (script ?ps1)]"
    by (rule executeScript_Return)
  from mapRunCommand_grows [OF m] l2 have "name s \<in> set ledger3" by auto
  with ro have no: "\<not> shouldExecutePre s ledger3"
    by (simp add: shouldExecutePre_iff)
  from e2 [unfolded f] obtain preSteps2 ledgerP commandSteps2 ledgerD postSteps2 ledgerE where
    q1: "runPhase mm scripts skip f (shouldExecutePre (script ?ps2) ledger3)
       (substitutedName ?ps2) (phaseCommands (pre (script ?ps2))) (substitutions ?ps2) PRE ledger3 =
     Return (preSteps2, ledgerP)" and
    q2: "runPhase mm scripts skip f (length (command (script ?ps2)) > 0)
       (substitutedName ?ps2) (command (script ?ps2)) (substitutions ?ps2) COMMAND ledgerP =
     Return (commandSteps2, ledgerD)" and
    q3: "runPhase mm scripts skip f (shouldExecutePost (script ?ps2) ledgerD)
       (substitutedName ?ps2) (phaseCommands (post (script ?ps2))) (substitutions ?ps2) POST ledgerD =
     Return (postSteps2, ledgerE)" and
    o4: "r2 = [] @ concat preSteps2 @ concat commandSteps2 @ concat postSteps2" and
    l4: "ledger4 = ledgerE @ [name (script ?ps2)]"
    by (rule executeScript_Return)
  from q1 no have z: "preSteps2 = []" "ledgerP = ledger3"
    by (simp_all add: runPhase_def)
  have cat: "concat outs =
        concat a @ (concat preSteps @ concat commandSteps1 @ concat postSteps1) @ concat m @
        (concat commandSteps2 @ concat postSteps2) @ concat b"
    unfolding o1 o2 o3 o4 z by simp
  from p1 have p1': "runPhase mm scripts skip f (shouldExecutePre s ledger1)
        (substitutedName ?ps1) (phaseCommands (pre s)) subs1 PRE ledger1 = Return (preSteps, ledgerA)"
    by simp
  from p2 have p2': "runPhase mm scripts skip f (length (command s) > 0)
        (substitutedName ?ps1) (command s) subs1 COMMAND ledgerA = Return (commandSteps1, ledgerB)"
    by simp
  from p3 have p3': "runPhase mm scripts skip f (shouldExecutePost s ledgerB)
        (substitutedName ?ps1) (phaseCommands (post s)) subs1 POST ledgerB =
      Return (postSteps1, ledgerC)"
    by simp
  from m l2 have m': "mapRunCommand mm scripts skip fuel nm between subs phase (ledgerC @ [name s]) =
      Return (m, ledger3)"
    by simp
  from q2 z(2) have q2': "runPhase mm scripts skip f (length (command s) > 0)
        (substitutedName ?ps2) (command s) subs2 COMMAND ledger3 = Return (commandSteps2, ledgerD)"
    by simp
  from q3 have q3': "runPhase mm scripts skip f (shouldExecutePost s ledgerD)
        (substitutedName ?ps2) (phaseCommands (post s)) subs2 POST ledgerD =
      Return (postSteps2, ledgerE)"
    by simp
  from b l4 have b': "mapRunCommand mm scripts skip fuel nm later subs phase (ledgerE @ [name s]) =
      Return (b, ledger')"
    by simp
  from f a p1' p2' p3' m' no q2' q3' b' cat show ?thesis by blast
qed

lemma run_once_second_expansion:
  assumes ro: "runOnceSet s opt_pre"
    and first: "executeScript mm scripts skip fuel1 \<lparr>script = s, substitutions = subs1\<rparr>
                  phase1 steps1 ledger0 = Return (out1, ledger1)"
    and later: "set ledger1 \<subseteq> set ledger2"
  shows "name s \<in> set ledger1 \<and> \<not> shouldExecutePre s ledger2 \<and>
    (name s \<notin> set ledger0 \<longrightarrow> shouldExecutePre s ledger0 = (phaseCommands (pre s) \<noteq> [])) \<and>
    (\<exists>fuel preSteps ledgerA commandSteps ledgerB postSteps ledgerC.
       fuel1 = Suc fuel \<and>
       runPhase mm scripts skip fuel (shouldExecutePre s ledger0)
         (substitutedName \<lparr>script = s, substitutions = subs1\<rparr>) (phaseCommands (pre s)) subs1
         PRE ledger0 = Return (preSteps, ledgerA) \<and>
       runPhase mm scripts skip fuel (length (command s) > 0)
         (substitutedName \<lparr>script = s, substitutions = subs1\<rparr>) (command s) subs1
         COMMAND ledgerA = Return (commandSteps, ledgerB) \<and>
       runPhase mm scripts skip fuel (shouldExecutePost s ledgerB)
         (substitutedName \<lparr>script = s, substitutions = subs1\<rparr>) (phaseCommands (post s)) subs1
         POST ledgerB = Return (postSteps, ledgerC) \<and>
       out1 = steps1 @ concat preSteps @ concat commandSteps @ concat postSteps) \<and>
    executeScript mm scripts skip (Suc fuel2) \<lparr>script = s, substitutions = subs2\<rparr>
        phase2 steps2 ledger2 =
      (case runPhase mm scripts skip fuel2 (length (command s) > 0)
              (substitutedName \<lparr>script = s, substitutions = subs2\<rparr>) (command s) subs2 COMMAND
              ledger2 of
         OutOfFuel \<Rightarrow> OutOfFuel
       | Throw e \<Rightarrow> Throw e
       | Return (commandSteps, ledger3) \<Rightarrow>
       case runPhase mm scripts skip fuel2 (shouldExecutePost s ledger3)
              (substitutedName \<lparr>script = s, substitutions = subs2\<rparr>) (phaseCommands (post s)) subs2
              POST ledger3 of
         OutOfFuel \<Rightarrow> OutOfFuel
       | Throw e \<Rightarrow> Throw e
       | Return (postSteps, ledger4) \<Rightarrow>
           Return (steps2 @ concat commandSteps @ concat postSteps, ledger4 @ [name s])) \<and>
    (\<forall>ps phase steps ledger out ledger'.
       executeScript mm scripts skip fuel2 ps phase steps ledger = Return (out, ledger') \<longrightarrow>
       set ledger \<subseteq> set ledger')"
proof -
  from executeScript_ledger [OF first] have in1: "name s \<in> set ledger1" by auto
  with later have in2: "name s \<in> set ledger2" by blast
  with ro have no: "\<not> shouldExecutePre s ledger2"
    by (simp add: shouldExecutePre_iff)
  have fresh: "name s \<notin> set ledger0 \<longrightarrow> shouldExecutePre s ledger0 = (phaseCommands (pre s) \<noteq> [])"
    by (simp add: shouldExecutePre_iff)
  have grow: "\<forall>ps phase steps ledger out ledger'.
       executeScript mm scripts skip fuel2 ps phase steps ledger = Return (out, ledger') \<longrightarrow>
       set ledger \<subseteq> set ledger'"
    by (auto dest!: executeScript_ledger)
  from no have skipped: "runPhase mm scripts skip fuel2 (shouldExecutePre s ledger2) nm cmds subs2
      PRE ledger2 = Return ([], ledger2)" for nm cmds
    by (simp add: runPhase_def)
  have "executeScript mm scripts skip (Suc fuel2) \<lparr>script = s, substitutions = subs2\<rparr>
        phase2 steps2 ledger2 =
      (case runPhase mm scripts skip fuel2 (length (command s) > 0)
              (substitutedName \<lparr>script = s, substitutions = subs2\<rparr>) (command s) subs2 COMMAND
              ledger2 of
         OutOfFuel \<Rightarrow> OutOfFuel
       | Throw e \<Rightarrow> Throw e
       | Return (commandSteps, ledger3) \<Rightarrow>
       case runPhase mm scripts skip fuel2 (shouldExecutePost s ledger3)
              (substitutedName \<lparr>script = s, substitutions = subs2\<rparr>) (phaseCommands (post s)) subs2
              POST ledger3 of
         OutOfFuel \<Rightarrow> OutOfFuel
       | Throw e \<Rightarrow> Throw e
       | Return (postSteps, ledger4) \<Rightarrow>
           Return (steps2 @ concat commandSteps @ concat postSteps, ledger4 @ [name s]))"
    by (simp add: executeScript_Suc skipped split: result.splits prod.splits)
  moreover
  from first obtain fuel where f: "fuel1 = Suc fuel"
    by (cases fuel1) (simp_all add: executeScript.simps)
  from first [unfolded f] obtain preSteps ledgerA commandSteps ledgerB postSteps ledgerC where
    "runPhase mm scripts skip fuel
       (shouldExecutePre (script \<lparr>script = s, substitutions = subs1\<rparr>) ledger0)
       (substitutedName \<lparr>script = s, substitutions = subs1\<rparr>)
       (phaseCommands (pre (script \<lparr>script = s, substitutions = subs1\<rparr>)))
       (substitutions \<lparr>script = s, substitutions = subs1\<rparr>) PRE ledger0 =
     Return (preSteps, ledgerA)"
    "runPhase mm scripts skip fuel
       (length (command (script \<lparr>script = s, substitutions = subs1\<rparr>)) > 0)
       (substitutedName \<lparr>script = s, substitutions = subs1\<rparr>)
       (command (script \<lparr>script = s, substitutions = subs1\<rparr>))
       (substitutions \<lparr>script = s, substitutions = subs1\<rparr>) COMMAND ledgerA =
     Return (commandSteps, ledgerB)"
    "runPhase mm scripts skip fuel
       (shouldExecutePost (script \<lparr>script = s, substitutions = subs1\<rparr>) ledgerB)
       (substitutedName \<lparr>script = s, substitutions = subs1\<rparr>)
       (phaseCommands (post (script \<lparr>script = s, substitutions = subs1\<rparr>)))
       (substitutions \<lparr>script = s, substitutions = subs1\<rparr>) POST ledgerB =
     Return (postSteps, ledgerC)"
    "out1 = steps1 @ concat preSteps @ concat commandSteps @ concat postSteps"
    by (rule executeScript_Return)
  with f have "\<exists>fuel preSteps ledgerA commandSteps ledgerB postSteps ledgerC.
       fuel1 = Suc fuel \<and>
       runPhase mm scripts skip fuel (shouldExecutePre s ledger0)
         (substitutedName \<lparr>script = s, substitutions = subs1\<rparr>) (phaseCommands (pre s)) subs1
         PRE ledger0 = Return (preSteps, ledgerA) \<and>
       runPhase mm scripts skip fuel (length (command s) > 0)
         (substitutedName \<lparr>script = s, substitutions = subs1\<rparr>) (command s) subs1
         COMMAND ledgerA = Return (commandSteps, ledgerB) \<and>
       runPhase mm scripts skip fuel (shouldExecutePost s ledgerB)
         (substitutedName \<lparr>script = s, substitutions = subs1\<rparr>) (phaseCommands (post s)) subs1
         POST ledgerB = Return (postSteps, ledgerC) \<and>
       out1 = steps1 @ concat preSteps @ concat commandSteps @ concat postSteps"
    by auto
  ultimately show ?thesis using in1 no fresh grow by blast
qed

text \<open>
  C1, as the claim states it, fails: the template name enters the ledger when
  \<^verbatim>\<open>executeScript\<close> returns, so an expansion that starts inside an unfinished expansion of
  the same template finds the ledger without the name. The run-once script \<^verbatim>\<open>t:${x}\<close>
  invokes \<^verbatim>\<open>t:${x}x\<close>; requested as \<^verbatim>\<open>t:a\<close> it is expanded for \<^verbatim>\<open>t:a\<close> and, inside that
  expansion, for \<^verbatim>\<open>t:ax\<close>, and its pre phase is in the plan twice.
\<close>

theorem run_once_nested_counterexample:
  "runOnceSet exampleSelf opt_pre \<and>
   findMatchingScript [exampleSelf, exampleEnd] ''t:a'' =
     Inr \<lparr>script = exampleSelf, substitutions = [\<lparr>sub_param = ''${x}'', sub_value = ''a''\<rparr>]\<rparr> \<and>
   findMatchingScript [exampleSelf, exampleEnd] ''t:ax'' =
     Inr \<lparr>script = exampleSelf, substitutions = [\<lparr>sub_param = ''${x}'', sub_value = ''ax''\<rparr>]\<rparr> \<and>
   findMatchingScript [exampleSelf, exampleEnd] ''t:axx'' =
     Inr \<lparr>script = exampleEnd, substitutions = []\<rparr> \<and>
   buildSteps (\<lambda>item pattern. False) [exampleSelf, exampleEnd] None 3 ''t:a'' =
     Return [\<lparr>step_script = ''t:a'', step_phase = PRE, step_command = ''echo pre a'',
               step_skip = False\<rparr>,
             \<lparr>step_script = ''t:ax'', step_phase = PRE, step_command = ''echo pre ax'',
               step_skip = False\<rparr>,
             \<lparr>step_script = ''t:axx'', step_phase = COMMAND, step_command = ''echo end'',
               step_skip = False\<rparr>]"
  by code_simp

text \<open>
  C1, amended. Let a script have run-once set for its pre phase and let it be expanded
  twice, the second expansion starting after the first has returned. Then the template
  name is in the ledger when the second expansion starts (the ledger only grows), the
  second expansion runs no pre phase, and its result is its command phase in full
  followed by its post phase. For two commands of one phase that invoke the script, the
  flattened steps of the phase are those of the earlier siblings, the pre, command and
  post phase of the first expansion, the steps of the commands in between, the command
  and post phase of the second expansion, and the steps of the later siblings: the pre
  phase is there once, from the first expansion, and the command phase twice.
\<close>

theorem run_once_pre:
  assumes ro: "runOnceSet s opt_pre"
  shows "(executeScript mm scripts skip fuel1 \<lparr>script = s, substitutions = subs1\<rparr>
                  phase1 steps1 ledger0 = Return (out1, ledger1) \<and>
     set ledger1 \<subseteq> set ledger2 \<longrightarrow>
     name s \<in> set ledger1 \<and> \<not> shouldExecutePre s ledger2 \<and>
    (name s \<notin> set ledger0 \<longrightarrow> shouldExecutePre s ledger0 = (phaseCommands (pre s) \<noteq> [])) \<and>
    (\<exists>fuel preSteps ledgerA commandSteps ledgerB postSteps ledgerC.
       fuel1 = Suc fuel \<and>
       runPhase mm scripts skip fuel (shouldExecutePre s ledger0)
         (substitutedName \<lparr>script = s, substitutions = subs1\<rparr>) (phaseCommands (pre s)) subs1
         PRE ledger0 = Return (preSteps, ledgerA) \<and>
       runPhase mm scripts skip fuel (length (command s) > 0)
         (substitutedName \<lparr>script = s, substitutions = subs1\<rparr>) (command s) subs1
         COMMAND ledgerA = Return (commandSteps, ledgerB) \<and>
       runPhase mm scripts skip fuel (shouldExecutePost s ledgerB)
         (substitutedName \<lparr>script = s, substitutions = subs1\<rparr>) (phaseCommands (post s)) subs1
         POST ledgerB = Return (postSteps, ledgerC) \<and>
       out1 = steps1 @ concat preSteps @ concat commandSteps @ concat postSteps) \<and>
    executeScript mm scripts skip (Suc fuel2) \<lparr>script = s, substitutions = subs2\<rparr>
        phase2 steps2 ledger2 =
      (case runPhase mm scripts skip fuel2 (length (command s) > 0)
              (substitutedName \<lparr>script = s, substitutions = subs2\<rparr>) (command s) subs2 COMMAND
              ledger2 of
         OutOfFuel \<Rightarrow> OutOfFuel
       | Throw e \<Rightarrow> Throw e
       | Return (commandSteps, ledger3) \<Rightarrow>
       case runPhase mm scripts skip fuel2 (shouldExecutePost s ledger3)
              (substitutedName \<lparr>script = s, substitutions = subs2\<rparr>) (phaseCommands (post s)) subs2
              POST ledger3 of
         OutOfFuel \<Rightarrow> OutOfFuel
       | Throw e \<Rightarrow> Throw e
       | Return (postSteps, ledger4) \<Rightarrow>
           Return (steps2 @ concat commandSteps @ concat postSteps, ledger4 @ [name s])) \<and>
    (\<forall>ps phase steps ledger out ledger'.
       executeScript mm scripts skip fuel2 ps phase steps ledger = Return (out, ledger') \<longrightarrow>
       set ledger \<subseteq> set ledger')) \<and>
    (startsWith c1 bnrunPrefix \<and>
     findMatchingScript scripts (substring (substitutedCommand subs c1) (length bnrunPrefix)) =
         Inr \<lparr>script = s, substitutions = subs1\<rparr> \<and>
     startsWith c2 bnrunPrefix \<and>
     findMatchingScript scripts (substring (substitutedCommand subs c2) (length bnrunPrefix)) =
         Inr \<lparr>script = s, substitutions = subs2\<rparr> \<and>
     mapRunCommand mm scripts skip fuel nm (earlier @ c1 # between @ c2 # later) subs phase
        ledger = Return (outs, ledger') \<longrightarrow>
     (\<exists>f a ledger1 preSteps ledgerA commandSteps1 ledgerB postSteps1 ledgerC m ledger3
            commandSteps2 ledgerD postSteps2 ledgerE b.
      fuel = Suc f \<and>
      mapRunCommand mm scripts skip fuel nm earlier subs phase ledger = Return (a, ledger1) \<and>
      runPhase mm scripts skip f (shouldExecutePre s ledger1)
        (substitutedName \<lparr>script = s, substitutions = subs1\<rparr>) (phaseCommands (pre s)) subs1
        PRE ledger1 = Return (preSteps, ledgerA) \<and>
      runPhase mm scripts skip f (length (command s) > 0)
        (substitutedName \<lparr>script = s, substitutions = subs1\<rparr>) (command s) subs1
        COMMAND ledgerA = Return (commandSteps1, ledgerB) \<and>
      runPhase mm scripts skip f (shouldExecutePost s ledgerB)
        (substitutedName \<lparr>script = s, substitutions = subs1\<rparr>) (phaseCommands (post s)) subs1
        POST ledgerB = Return (postSteps1, ledgerC) \<and>
      mapRunCommand mm scripts skip fuel nm between subs phase (ledgerC @ [name s]) =
        Return (m, ledger3) \<and>
      \<not> shouldExecutePre s ledger3 \<and>
      runPhase mm scripts skip f (length (command s) > 0)
        (substitutedName \<lparr>script = s, substitutions = subs2\<rparr>) (command s) subs2
        COMMAND ledger3 = Return (commandSteps2, ledgerD) \<and>
      runPhase mm scripts skip f (shouldExecutePost s ledgerD)
        (substitutedName \<lparr>script = s, substitutions = subs2\<rparr>) (phaseCommands (post s)) subs2
        POST ledgerD = Return (postSteps2, ledgerE) \<and>
      mapRunCommand mm scripts skip fuel nm later subs phase (ledgerE @ [name s]) =
        Return (b, ledger') \<and>
      concat outs =
        concat a @ (concat preSteps @ concat commandSteps1 @ concat postSteps1) @ concat m @
        (concat commandSteps2 @ concat postSteps2) @ concat b))"
    (is "(?returned \<longrightarrow> ?second) \<and> (?siblings \<longrightarrow> ?plan)")
proof (rule conjI)
  show "?returned \<longrightarrow> ?second"
  proof (rule impI)
    assume h: ?returned
    show ?second
      by (rule run_once_second_expansion [OF ro h [THEN conjunct1] h [THEN conjunct2]])
  qed
next
  show "?siblings \<longrightarrow> ?plan"
  proof (rule impI)
    assume h: ?siblings
    show ?plan
      by (rule run_once_siblings [OF ro h [THEN conjunct1] h [THEN conjunct2, THEN conjunct1]
            h [THEN conjunct2, THEN conjunct2, THEN conjunct1]
            h [THEN conjunct2, THEN conjunct2, THEN conjunct2, THEN conjunct1]
            h [THEN conjunct2, THEN conjunct2, THEN conjunct2, THEN conjunct2]])
  qed
qed

theorem run_once_pre_witness:
  "runOnceSet exampleRunOnce opt_pre \<and>
   executeScript (\<lambda>item pattern. False) [exampleRunOnce, exampleBuildAll] None 1 exampleProjectA
     COMMAND [] [] =
   Return ([\<lparr>step_script = ''build:projectA:production'', step_phase = PRE,
              step_command = ''some-pre command-for-projects'', step_skip = False\<rparr>,
            \<lparr>step_script = ''build:projectA:production'', step_phase = COMMAND,
              step_command = ''some-build command-for projectA'', step_skip = False\<rparr>,
            \<lparr>step_script = ''build:projectA:production'', step_phase = POST,
              step_command = ''some-post command-for projectA'', step_skip = False\<rparr>],
           [''build:${project}:production'']) \<and>
   \<not> shouldExecutePre exampleRunOnce [''build:${project}:production''] \<and>
   executeScript (\<lambda>item pattern. False) [exampleRunOnce, exampleBuildAll] None 1 exampleProjectB
     COMMAND [] [''build:${project}:production''] =
   Return ([\<lparr>step_script = ''build:projectB:production'', step_phase = COMMAND,
              step_command = ''some-build command-for projectB'', step_skip = False\<rparr>,
            \<lparr>step_script = ''build:projectB:production'', step_phase = POST,
              step_command = ''some-post command-for projectB'', step_skip = False\<rparr>],
           [''build:${project}:production'', ''build:${project}:production'']) \<and>
   buildSteps (\<lambda>item pattern. False) [exampleRunOnce, exampleBuildAll] None 2 ''build:all'' =
   Return [\<lparr>step_script = ''build:projectA:production'', step_phase = PRE,
              step_command = ''some-pre command-for-projects'', step_skip = False\<rparr>,
           \<lparr>step_script = ''build:projectA:production'', step_phase = COMMAND,
              step_command = ''some-build command-for projectA'', step_skip = False\<rparr>,
           \<lparr>step_script = ''build:projectA:production'', step_phase = POST,
              step_command = ''some-post command-for projectA'', step_skip = False\<rparr>,
           \<lparr>step_script = ''build:projectB:production'', step_phase = COMMAND,
              step_command = ''some-build command-for projectB'', step_skip = False\<rparr>,
           \<lparr>step_script = ''build:projectB:production'', step_phase = POST,
              step_command = ''some-post command-for projectB'', step_skip = False\<rparr>] \<and>
   (\<exists>preSteps commandSteps1 postSteps1 commandSteps2 postSteps2.
     concat [[\<lparr>step_script = ''build:projectA:production'', step_phase = PRE,
              step_command = ''some-pre command-for-projects'', step_skip = False\<rparr>,
            \<lparr>step_script = ''build:projectA:production'', step_phase = COMMAND,
              step_command = ''some-build command-for projectA'', step_skip = False\<rparr>,
            \<lparr>step_script = ''build:projectA:production'', step_phase = POST,
              step_command = ''some-post command-for projectA'', step_skip = False\<rparr>],
           [\<lparr>step_script = ''build:projectB:production'', step_phase = COMMAND,
              step_command = ''some-build command-for projectB'', step_skip = False\<rparr>,
            \<lparr>step_script = ''build:projectB:production'', step_phase = POST,
              step_command = ''some-post command-for projectB'', step_skip = False\<rparr>]] =
     (concat preSteps @ concat commandSteps1 @ concat postSteps1) @
     (concat commandSteps2 @ concat postSteps2))"
proof -
  let ?mm = "\<lambda>item pattern. False"
  let ?scripts = "[exampleRunOnce, exampleBuildAll]"
  let ?ledger = "[''build:${project}:production'']"
  have ro: "runOnceSet exampleRunOnce opt_pre" by code_simp
  have first: "executeScript ?mm ?scripts None 1
     \<lparr>script = exampleRunOnce,
      substitutions = [\<lparr>sub_param = ''${project}'', sub_value = ''projectA''\<rparr>]\<rparr> COMMAND [] [] =
   Return ([\<lparr>step_script = ''build:projectA:production'', step_phase = PRE,
              step_command = ''some-pre command-for-projects'', step_skip = False\<rparr>,
            \<lparr>step_script = ''build:projectA:production'', step_phase = COMMAND,
              step_command = ''some-build command-for projectA'', step_skip = False\<rparr>,
            \<lparr>step_script = ''build:projectA:production'', step_phase = POST,
              step_command = ''some-post command-for projectA'', step_skip = False\<rparr>],
           ?ledger)"
    by code_simp
  have second: "executeScript ?mm ?scripts None 1 exampleProjectB COMMAND [] ?ledger =
   Return ([\<lparr>step_script = ''build:projectB:production'', step_phase = COMMAND,
              step_command = ''some-build command-for projectB'', step_skip = False\<rparr>,
            \<lparr>step_script = ''build:projectB:production'', step_phase = POST,
              step_command = ''some-post command-for projectB'', step_skip = False\<rparr>],
           [''build:${project}:production'', ''build:${project}:production''])"
    by code_simp
  have plan: "buildSteps ?mm ?scripts None 2 ''build:all'' =
   Return [\<lparr>step_script = ''build:projectA:production'', step_phase = PRE,
              step_command = ''some-pre command-for-projects'', step_skip = False\<rparr>,
           \<lparr>step_script = ''build:projectA:production'', step_phase = COMMAND,
              step_command = ''some-build command-for projectA'', step_skip = False\<rparr>,
           \<lparr>step_script = ''build:projectA:production'', step_phase = POST,
              step_command = ''some-post command-for projectA'', step_skip = False\<rparr>,
           \<lparr>step_script = ''build:projectB:production'', step_phase = COMMAND,
              step_command = ''some-build command-for projectB'', step_skip = False\<rparr>,
           \<lparr>step_script = ''build:projectB:production'', step_phase = POST,
              step_command = ''some-post command-for projectB'', step_skip = False\<rparr>]"
    by code_simp
  have sub: "set ?ledger \<subseteq> set ?ledger" by simp
  from run_once_pre [OF ro, THEN conjunct1] first sub
  have no: "\<not> shouldExecutePre exampleRunOnce ?ledger" by blast
  let ?c1 = "''bnrun build:projectA:production''"
  let ?c2 = "''bnrun build:projectB:production''"
  let ?subsA = "[\<lparr>sub_param = ''${project}'', sub_value = ''projectA''\<rparr>]"
  let ?subsB = "[\<lparr>sub_param = ''${project}'', sub_value = ''projectB''\<rparr>]"
  let ?outs = "[[\<lparr>step_script = ''build:projectA:production'', step_phase = PRE,
              step_command = ''some-pre command-for-projects'', step_skip = False\<rparr>,
            \<lparr>step_script = ''build:projectA:production'', step_phase = COMMAND,
              step_command = ''some-build command-for projectA'', step_skip = False\<rparr>,
            \<lparr>step_script = ''build:projectA:production'', step_phase = POST,
              step_command = ''some-post command-for projectA'', step_skip = False\<rparr>],
           [\<lparr>step_script = ''build:projectB:production'', step_phase = COMMAND,
              step_command = ''some-build command-for projectB'', step_skip = False\<rparr>,
            \<lparr>step_script = ''build:projectB:production'', step_phase = POST,
              step_command = ''some-post command-for projectB'', step_skip = False\<rparr>]]"
  have c1: "startsWith ?c1 bnrunPrefix" by code_simp
  have c2: "startsWith ?c2 bnrunPrefix" by code_simp
  have r1: "findMatchingScript ?scripts (substring (substitutedCommand [] ?c1) (length bnrunPrefix)) =
      Inr \<lparr>script = exampleRunOnce, substitutions = ?subsA\<rparr>" by code_simp
  have r2: "findMatchingScript ?scripts (substring (substitutedCommand [] ?c2) (length bnrunPrefix)) =
      Inr \<lparr>script = exampleRunOnce, substitutions = ?subsB\<rparr>" by code_simp
  have run: "mapRunCommand ?mm ?scripts None 1 ''build:all'' ([] @ ?c1 # [] @ ?c2 # []) [] COMMAND [] =
      Return (?outs, [''build:${project}:production'', ''build:${project}:production''])"
    by code_simp
  note siblings = run_once_pre [OF ro, THEN conjunct2, THEN mp,
      OF conjI [OF c1 conjI [OF r1 conjI [OF c2 conjI [OF r2 run]]]]]
  from siblings obtain a preSteps commandSteps1 postSteps1 m commandSteps2 postSteps2 b l1 l3 lC lE l'
    where a: "mapRunCommand ?mm ?scripts None 1 ''build:all'' [] [] COMMAND [] = Return (a, l1)"
      and m: "mapRunCommand ?mm ?scripts None 1 ''build:all'' [] [] COMMAND
                (lC @ [name exampleRunOnce]) = Return (m, l3)"
      and b: "mapRunCommand ?mm ?scripts None 1 ''build:all'' [] [] COMMAND
                (lE @ [name exampleRunOnce]) = Return (b, l')"
      and cat: "concat ?outs =
        concat a @ (concat preSteps @ concat commandSteps1 @ concat postSteps1) @ concat m @
        (concat commandSteps2 @ concat postSteps2) @ concat b"
    by blast
  from a m b have "a = []" "m = []" "b = []" by simp_all
  with cat have "concat ?outs =
     (concat preSteps @ concat commandSteps1 @ concat postSteps1) @
     (concat commandSteps2 @ concat postSteps2)" by simp
  then have once: "\<exists>preSteps commandSteps1 postSteps1 commandSteps2 postSteps2.
     concat [[\<lparr>step_script = ''build:projectA:production'', step_phase = PRE,
              step_command = ''some-pre command-for-projects'', step_skip = False\<rparr>,
            \<lparr>step_script = ''build:projectA:production'', step_phase = COMMAND,
              step_command = ''some-build command-for projectA'', step_skip = False\<rparr>,
            \<lparr>step_script = ''build:projectA:production'', step_phase = POST,
              step_command = ''some-post command-for projectA'', step_skip = False\<rparr>],
           [\<lparr>step_script = ''build:projectB:production'', step_phase = COMMAND,
              step_command = ''some-build command-for projectB'', step_skip = False\<rparr>,
            \<lparr>step_script = ''build:projectB:production'', step_phase = POST,
              step_command = ''some-post command-for projectB'', step_skip = False\<rparr>]] =
     (concat preSteps @ concat commandSteps1 @ concat postSteps1) @
     (concat commandSteps2 @ concat postSteps2)"
    by blast
  from ro first no second plan have "runOnceSet exampleRunOnce opt_pre \<and>
   executeScript (\<lambda>item pattern. False) [exampleRunOnce, exampleBuildAll] None 1 exampleProjectA
     COMMAND [] [] =
   Return ([\<lparr>step_script = ''build:projectA:production'', step_phase = PRE,
              step_command = ''some-pre command-for-projects'', step_skip = False\<rparr>,
            \<lparr>step_script = ''build:projectA:production'', step_phase = COMMAND,
              step_command = ''some-build command-for projectA'', step_skip = False\<rparr>,
            \<lparr>step_script = ''build:projectA:production'', step_phase = POST,
              step_command = ''some-post command-for projectA'', step_skip = False\<rparr>],
           [''build:${project}:production'']) \<and>
   \<not> shouldExecutePre exampleRunOnce [''build:${project}:production''] \<and>
   executeScript (\<lambda>item pattern. False) [exampleRunOnce, exampleBuildAll] None 1 exampleProjectB
     COMMAND [] [''build:${project}:production''] =
   Return ([\<lparr>step_script = ''build:projectB:production'', step_phase = COMMAND,
              step_command = ''some-build command-for projectB'', step_skip = False\<rparr>,
            \<lparr>step_script = ''build:projectB:production'', step_phase = POST,
              step_command = ''some-post command-for projectB'', step_skip = False\<rparr>],
           [''build:${project}:production'', ''build:${project}:production''])"
    by (simp add: exampleProjectA_def)
  with plan once show ?thesis by blast
qed


subsection \<open>Resolution by pattern\<close>

lemma js_split_colon:
  "c \<notin> set a \<Longrightarrow> js_split c (a @ c # b) = a # js_split c b"
  by (induction a) auto

lemma js_index_second:
  assumes "CHR '':'' \<notin> set base" "CHR '':'' \<notin> set v"
    and "param = base @ '':'' @ v \<or> param = base @ '':'' @ v @ '':'' @ trailing"
  shows "js_index (js_split CHR '':'' param) 1 = Some v"
proof -
  from assms(3) show ?thesis
  proof
    assume "param = base @ '':'' @ v"
    with assms(1,2) show ?thesis
      by (simp add: js_split_colon js_split_no_separator)
  next
    assume "param = base @ '':'' @ v @ '':'' @ trailing"
    with assms(1,2) show ?thesis
      by (simp add: js_split_colon)
  qed
qed

lemma fold_substituteStep:
  "v \<noteq> [] \<Longrightarrow>
   fold (substituteStep (Some v)) tokens (nm, acc) =
     (fold (\<lambda>token n. js_replace n token v) tokens nm,
      acc @ map (\<lambda>token. \<lparr>sub_param = token, sub_value = v\<rparr>) tokens)"
  by (induction tokens arbitrary: nm acc) (simp_all add: substituteStep_def)

lemma getSubstitution_no_dollar:
  "CHR ''$'' \<notin> set repl \<Longrightarrow> getSubstitution matched front behind repl = repl"
  by (induction matched front behind repl rule: getSubstitution.induct) auto

lemma splitAtFirst_here:
  "pat \<noteq> [] \<Longrightarrow> splitAtFirst pat (pat @ rest) = Some ([], rest)"
  by (cases pat) auto

lemma splitAtFirst_skip:
  assumes "hd pat \<notin> set done" "pat \<noteq> []"
  shows "splitAtFirst pat (done @ pat @ rest) = Some (done, rest)"
  using assms(1)
proof (induction "done")
  case Nil
  with assms(2) show ?case by (simp add: splitAtFirst_here)
next
  case (Cons c cs)
  from assms(2) obtain p ps where p: "pat = p # ps" by (cases pat) auto
  with Cons.prems have "c \<noteq> p" by auto
  with p have "take (length pat) (c # cs @ pat @ rest) \<noteq> pat" by auto
  moreover from Cons have "splitAtFirst pat (cs @ pat @ rest) = Some (cs, rest)" by simp
  ultimately show ?case by simp
qed

lemma js_replace_token:
  assumes "matchPlaceholder s = Some (token, rest)" "CHR ''$'' \<notin> set done" "CHR ''$'' \<notin> set v"
  shows "js_replace (done @ s) token v = done @ v @ rest"
proof -
  from assms(1) have s: "s = token @ rest" by (rule matchPlaceholder_parts)
  from assms(1) obtain w where "token = ''${'' @ w @ ''}''" by (auto dest: matchPlaceholder_token)
  then have "token \<noteq> []" "hd token = CHR ''$''" by simp_all
  with assms(2) have "splitAtFirst token (done @ token @ rest) = Some (done, rest)"
    by (simp add: splitAtFirst_skip)
  with s assms(3) show ?thesis
    by (simp add: js_replace_def getSubstitution_no_dollar)
qed

lemma fold_replace_substituteAll:
  assumes v: "CHR ''$'' \<notin> set v"
  shows "dollarOnlyInPlaceholders s \<Longrightarrow> CHR ''$'' \<notin> set done \<Longrightarrow>
         fold (\<lambda>token n. js_replace n token v) (placeholders s) (done @ s) =
         done @ substituteAll v s"
proof (induction s arbitrary: "done" rule: placeholders.induct)
  case 1
  show ?case by (simp add: substituteAll_def)
next
  case (2 c cs)
  show ?case
  proof (cases "matchPlaceholder (c # cs)")
    case None
    with "2.prems"(1) have c: "c \<noteq> CHR ''$''" and wf: "dollarOnlyInPlaceholders cs"
      by (auto simp: dollarOnlyInPlaceholders_def)
    from c "2.prems"(2) have "CHR ''$'' \<notin> set (done @ [c])" by simp
    from "2.IH"(1) [OF None wf this] None show ?thesis
      by (simp add: substituteAll_def)
  next
    case (Some x)
    obtain token rest where x: "x = (token, rest)" by (cases x)
    with Some have m: "matchPlaceholder (c # cs) = Some (token, rest)" by simp
    with "2.prems"(1) have wf: "dollarOnlyInPlaceholders rest"
      by (auto simp: dollarOnlyInPlaceholders_def)
    from v "2.prems"(2) have d: "CHR ''$'' \<notin> set (done @ v)" by simp
    have r: "js_replace (done @ c # cs) token v = (done @ v) @ rest"
      using js_replace_token [OF m "2.prems"(2) v] by simp
    from "2.IH"(2) [OF Some x [symmetric] wf d] m r show ?thesis
      by (simp add: substituteAll_def)
  qed
qed

lemma substituteName_substituteAll:
  assumes "js_index (js_split CHR '':'' param) 1 = Some v" "v \<noteq> []" "CHR ''$'' \<notin> set v"
    "dollarOnlyInPlaceholders (name s)"
  shows "substituteName s param =
    (substituteAll v (name s),
     map (\<lambda>token. \<lparr>sub_param = token, sub_value = v\<rparr>) (placeholders (name s)))"
proof -
  have "fold (\<lambda>token n. js_replace n token v) (placeholders (name s)) ([] @ name s) =
        [] @ substituteAll v (name s)"
    using assms(3,4) by (intro fold_replace_substituteAll) simp_all
  then show ?thesis
    using assms(1,2) by (simp add: substituteName_def fold_substituteStep)
qed

text \<open>
  C4, as the claim states it, fails. The replacement text of \<^verbatim>\<open>replace\<close> is not literal:
  for the request \<^verbatim>\<open>deploy:$&\<close> the value is \<^verbatim>\<open>$&\<close>, the name with the value in the place
  of the token is the request itself, but the working name of the resolver is the
  template name again and nothing matches. And \<^verbatim>\<open>replace\<close> looks for the text of the
  token in the working name, which need not be where the token stood: in the name
  \<^verbatim>\<open>b:${z}:${a${a}${a}\<close> with the value \<^verbatim>\<open>}\<close> the third replacement hits the text that the
  second one has completed.
\<close>

theorem placeholder_value_counterexample:
  "js_index (js_split CHR '':'' ''deploy:$&'') 1 = Some ''$&'' \<and>
   placeholders (name exampleDeploy) = [''${env}''] \<and>
   substituteAll ''$&'' (name exampleDeploy) = ''deploy:$&'' \<and>
   fst (substituteName exampleDeploy ''deploy:$&'') = ''deploy:${env}'' \<and>
   findMatchingScript [exampleBuild, exampleDeploy] ''deploy:$&'' =
     Inl (Error ''No script found for deploy:$&'') \<and>
   js_index (js_split CHR '':'' ''b:}:${a}}'') 1 = Some ''}'' \<and>
   placeholders (name exampleOddName) = [''${z}'', ''${a}'', ''${a}''] \<and>
   substituteAll ''}'' (name exampleOddName) = ''b:}:${a}}'' \<and>
   fst (substituteName exampleOddName ''b:}:${a}}'') = ''b:}:}${a}'' \<and>
   findMatchingScript [exampleOddName] ''b:}:${a}}'' =
     Inl (Error ''No script found for b:}:${a}}'')"
  by code_simp

text \<open>
  C4, amended. For a request \<^verbatim>\<open>base:value\<close> or \<^verbatim>\<open>base:value:...\<close> with a non-empty value,
  the value is the second piece of the request, and the resolver returns one binding for
  every placeholder token of the template name, in the order of the tokens, each with
  that value. When neither the value nor the template name outside its tokens has a
  dollar sign, the working name of the resolver is the template name with the value in
  the place of every token, and the template matches exactly when that name equals the
  request. Requesting \<^verbatim>\<open>deploy:prod\<close> from the example registry gives the two steps of
  the specification, with any fuel from one on.
\<close>

theorem placeholder_resolution:
  assumes v: "v \<noteq> []" "CHR '':'' \<notin> set v"
    and base: "CHR '':'' \<notin> set base"
    and param: "param = base @ '':'' @ v \<or> param = base @ '':'' @ v @ '':'' @ trailing"
  shows "js_index (js_split CHR '':'' param) 1 = Some v \<and>
    snd (substituteName s param) =
      map (\<lambda>token. \<lparr>sub_param = token, sub_value = v\<rparr>) (placeholders (name s)) \<and>
    matchByPattern (s # others) param =
      (if fst (substituteName s param) = param
       then Inr \<lparr>script = s,
                substitutions = map (\<lambda>token. \<lparr>sub_param = token, sub_value = v\<rparr>)
                                  (placeholders (name s))\<rparr>
       else matchByPattern others param) \<and>
    (CHR ''$'' \<notin> set v \<and> dollarOnlyInPlaceholders (name s) \<longrightarrow>
       fst (substituteName s param) = substituteAll v (name s) \<and>
       matchByPattern (s # others) param =
         (if substituteAll v (name s) = param
          then Inr \<lparr>script = s,
                   substitutions = map (\<lambda>token. \<lparr>sub_param = token, sub_value = v\<rparr>)
                                     (placeholders (name s))\<rparr>
          else matchByPattern others param)) \<and>
    buildSteps mm [exampleBuild, exampleDeploy] None (1 + extra) ''deploy:prod'' =
      Return [\<lparr>step_script = ''deploy:prod'', step_phase = PRE, step_command = ''echo setup'',
                step_skip = False\<rparr>,
              \<lparr>step_script = ''deploy:prod'', step_phase = COMMAND,
                step_command = ''echo deploy prod'', step_skip = False\<rparr>]"
proof -
  from base v(2) param have i: "js_index (js_split CHR '':'' param) 1 = Some v"
    by (rule js_index_second)
  with v(1) have b: "snd (substituteName s param) =
      map (\<lambda>token. \<lparr>sub_param = token, sub_value = v\<rparr>) (placeholders (name s))"
    by (simp add: substituteName_def fold_substituteStep)
  have a: "CHR ''$'' \<notin> set v \<and> dollarOnlyInPlaceholders (name s) \<longrightarrow>
       fst (substituteName s param) = substituteAll v (name s)"
    using substituteName_substituteAll [OF i v(1)] by simp
  have m: "matchByPattern (s # others) param =
      (if fst (substituteName s param) = param
       then Inr \<lparr>script = s,
                substitutions = map (\<lambda>token. \<lparr>sub_param = token, sub_value = v\<rparr>)
                                  (placeholders (name s))\<rparr>
       else matchByPattern others param)"
    using b by simp
  let ?found = "\<lparr>script = exampleDeploy,
      substitutions = [\<lparr>sub_param = ''${env}'', sub_value = ''prod''\<rparr>]\<rparr>"
  let ?plan = "[\<lparr>step_script = ''deploy:prod'', step_phase = PRE, step_command = ''echo setup'',
                step_skip = False\<rparr>,
              \<lparr>step_script = ''deploy:prod'', step_phase = COMMAND,
                step_command = ''echo deploy prod'', step_skip = False\<rparr>]"
  have f: "findMatchingScript [exampleBuild, exampleDeploy] ''deploy:prod'' = Inr ?found"
    by code_simp
  have e: "executeScript mm [exampleBuild, exampleDeploy] None 1 ?found COMMAND [] [] =
      Return (?plan, [''deploy:${env}''])"
    by code_simp
  have "executeScript mm [exampleBuild, exampleDeploy] None (1 + extra) ?found COMMAND [] [] =
      Return (?plan, [''deploy:${env}''])"
    using executeScript_fuel [of mm "[exampleBuild, exampleDeploy]" None 1 ?found
        COMMAND "[]" "[]" extra] e
    by simp
  with f have p: "buildSteps mm [exampleBuild, exampleDeploy] None (1 + extra) ''deploy:prod'' =
      Return ?plan"
    by (simp add: buildSteps_def)
  from a m have c: "CHR ''$'' \<notin> set v \<and> dollarOnlyInPlaceholders (name s) \<longrightarrow>
       fst (substituteName s param) = substituteAll v (name s) \<and>
       matchByPattern (s # others) param =
         (if substituteAll v (name s) = param
          then Inr \<lparr>script = s,
                   substitutions = map (\<lambda>token. \<lparr>sub_param = token, sub_value = v\<rparr>)
                                     (placeholders (name s))\<rparr>
          else matchByPattern others param)"
    using b by simp
  from i b m c p show ?thesis by blast
qed

theorem placeholder_resolution_witness:
  "''projectA'' \<noteq> [] \<and> CHR '':'' \<notin> set ''projectA'' \<and> CHR '':'' \<notin> set ''build'' \<and>
   CHR ''$'' \<notin> set ''projectA'' \<and> dollarOnlyInPlaceholders (name exampleRunOnce) \<and>
   substituteAll ''projectA'' (name exampleRunOnce) = ''build:projectA:production'' \<and>
   substituteName exampleRunOnce ''build:projectA:production'' =
     (''build:projectA:production'', [\<lparr>sub_param = ''${project}'', sub_value = ''projectA''\<rparr>]) \<and>
   matchByPattern [exampleRunOnce, exampleBuildAll] ''build:projectA:production'' =
     Inr \<lparr>script = exampleRunOnce,
          substitutions = [\<lparr>sub_param = ''${project}'', sub_value = ''projectA''\<rparr>]\<rparr>"
proof -
  let ?param = "''build:projectA:production''"
  have h: "''projectA'' \<noteq> []" "CHR '':'' \<notin> set ''projectA''" "CHR '':'' \<notin> set ''build''"
    "?param = ''build'' @ '':'' @ ''projectA'' \<or>
     ?param = ''build'' @ '':'' @ ''projectA'' @ '':'' @ ''production''"
    by simp_all
  have d: "CHR ''$'' \<notin> set ''projectA''" by simp
  have w: "dollarOnlyInPlaceholders (name exampleRunOnce)" by code_simp
  have t: "placeholders (name exampleRunOnce) = [''${project}'']" by code_simp
  have a: "substituteAll ''projectA'' (name exampleRunOnce) = ?param" by code_simp
  note r = placeholder_resolution [OF h, where s = exampleRunOnce and others = "[exampleBuildAll]"]
  from r d w a have f: "fst (substituteName exampleRunOnce ?param) = ?param" by simp
  from r t have s: "snd (substituteName exampleRunOnce ?param) =
      [\<lparr>sub_param = ''${project}'', sub_value = ''projectA''\<rparr>]" by simp
  from r f t have m: "matchByPattern [exampleRunOnce, exampleBuildAll] ?param =
     Inr \<lparr>script = exampleRunOnce,
          substitutions = [\<lparr>sub_param = ''${project}'', sub_value = ''projectA''\<rparr>]\<rparr>"
    by simp
  from f s have "substituteName exampleRunOnce ?param =
     (?param, [\<lparr>sub_param = ''${project}'', sub_value = ''projectA''\<rparr>])"
    by (simp add: prod_eq_iff)
  with h(1-3) d w a m show ?thesis by simp
qed

subsection \<open>Loading\<close>

text \<open>
  C8, as the claim states it, fails: the only test at load time is that the parsed value
  is an object for \<^verbatim>\<open>typeof\<close>. An entry without commands, an entry with an empty command
  list and an array instead of a mapping are all accepted.
\<close>

theorem load_accepts_counterexample:
  "\<not> wellFormedDefinitions (JObject [(''build'', JObject [])] :: nat json) \<and>
   loadScriptFile (Some (JObject [(''build'', JObject [])] :: nat json)) =
     Inr (JObject [(''build'', JObject [])]) \<and>
   \<not> wellFormedDefinitions (JObject [(''build'', JObject [(''command'', JArray [])])] :: nat json) \<and>
   loadScriptFile (Some (JObject [(''build'', JObject [(''command'', JArray [])])] :: nat json)) =
     Inr (JObject [(''build'', JObject [(''command'', JArray [])])]) \<and>
   \<not> wellFormedDefinitions (JArray [JNumber 1] :: nat json) \<and>
   loadScriptFile (Some (JArray [JNumber 1] :: nat json)) = Inr (JArray [JNumber 1])"
  by (simp add: wellFormedDefinitions_def hasCommandList_def loadScriptFile_def isScriptsFile_def
        typeof_def)

text \<open>
  C8, amended. Loading a file fails with the error \<^verbatim>\<open>Invalid script file\<close> exactly when
  the parsed value is a boolean, a number or a string, and with the \<^verbatim>\<open>SyntaxError\<close> of the
  parser when the text is not JSON; every other value is returned as it is.
\<close>

theorem load_check:
  "loadScriptFile parsed =
     (case parsed of
        None \<Rightarrow> Inl SyntaxError
      | Some (JBoolean b) \<Rightarrow> Inl (Error ''Invalid script file'')
      | Some (JNumber n) \<Rightarrow> Inl (Error ''Invalid script file'')
      | Some (JString s) \<Rightarrow> Inl (Error ''Invalid script file'')
      | Some scripts \<Rightarrow> Inr scripts)"
  by (simp add: loadScriptFile_def isScriptsFile_def typeof_def split: option.splits json.splits)


theorem load_check_witness:
  "loadScriptFile (Some (JString ''build'' :: nat json)) = Inl (Error ''Invalid script file'') \<and>
   loadScriptFile (None :: nat json option) = Inl SyntaxError \<and>
   loadScriptFile (Some (JNull :: nat json)) = Inr JNull"
  using load_check [of "Some (JString ''build'' :: nat json)"]
    load_check [of "None :: nat json option"] load_check [of "Some (JNull :: nat json)"]
  by simp

end
